theory Spec2Isabelle
  imports Main "HOL-Library.Word"
begin

section \<open>The split-retry duplex stream (package intra, type retrier)\<close>

text \<open>
  The Go type \<^verbatim>\<open>retrier\<close> wraps a TCP connection. Bytes written before the first
  read are kept in \<^verbatim>\<open>hello\<close>; when the first read fails, \<^verbatim>\<open>retry\<close> closes the
  socket, dials the destination again and replays \<^verbatim>\<open>hello\<close> in two segments.

  The sockets, the dialer, the random source and the clock are outside the program. Each
  model function therefore receives the answers of the outside world as an argument (its
  environment) and appends every call it makes on a socket or on the dialer to a log, the
  field \<open>trace\<close>. The log is the only field that the Go struct does not have.

  The stream is made for two goroutines, one that reads and one that writes. In the model
  a call is one step, with one exception: a \<^verbatim>\<open>Write\<close> whose write on the provisional socket
  failed waits for the retry flag and goes on in a later step. What the code does between
  \<^verbatim>\<open>Lock\<close> and \<^verbatim>\<open>Unlock\<close> happens within one step, so the mutex is not a field of the model.
\<close>

subsection \<open>Data\<close>

type_synonym byte = "8 word"

text \<open>A \<^verbatim>\<open>*net.TCPConn\<close> is \<open>Some\<close> socket or the nil pointer \<open>None\<close>.\<close>

type_synonym tcpconn = nat

datatype error = EOF | ETIMEDOUT | ECONNRESET | ECONNREFUSED | EPIPE

text \<open>The pair \<^verbatim>\<open>(n int, err error)\<close> that Read and Write return; \<open>None\<close> is the nil error.\<close>

type_synonym io = "nat \<times> error option"

text \<open>
  A flag is a channel on which nothing is ever sent: it starts open and \<^verbatim>\<open>close\<close>
  makes it closed for good.
\<close>

datatype flag = Open | Closed

datatype event =
    NetDialTCP string string "tcpconn option"
  | ConnRead tcpconn
  | ConnWrite tcpconn "byte list"
  | ConnClose tcpconn
  | ConnCloseRead tcpconn
  | ConnCloseWrite tcpconn
  | ConnSetReadDeadline tcpconn "64 word"
  | ConnReadFrom tcpconn

text \<open>
  The struct. Its field \<^verbatim>\<open>timeout\<close> is \<open>timeout_field\<close> here, since \<open>timeout\<close> is the
  function; \<open>trace\<close> is the log.
\<close>

record retrier =
  network :: string
  addr :: string
  conn :: "tcpconn option"
  timeout_field :: "64 word"
  hello :: "byte list"
  retryCompleteFlag :: flag
  readCloseFlag :: flag
  writeCloseFlag :: flag
  trace :: "event list"

text \<open>
  How a call ends: it returns, it panics (a run-time panic of Go), or it is blocked
  (it waits for something another goroutine has to do).
\<close>

datatype 'a outcome = Returned 'a | Panicked | Blocked

definition bind_o ::
  "'a outcome \<times> retrier \<Rightarrow> ('a \<Rightarrow> retrier \<Rightarrow> 'b outcome \<times> retrier) \<Rightarrow> 'b outcome \<times> retrier" where
  "bind_o m f =
     (case m of
        (Returned a, r) \<Rightarrow> f a r
      | (Panicked, r) \<Rightarrow> (Panicked, r)
      | (Blocked, r) \<Rightarrow> (Blocked, r))"

definition emit :: "event \<Rightarrow> retrier \<Rightarrow> retrier" where
  "emit ev r = r\<lparr>trace := trace r @ [ev]\<rparr>"

subsection \<open>Flags\<close>

definition closed :: "flag \<Rightarrow> bool" where
  "closed c = (case c of Closed \<Rightarrow> True | Open \<Rightarrow> False)"

text \<open>Go's builtin \<^verbatim>\<open>close\<close>: closing a closed channel panics (\<open>None\<close>).\<close>

definition close_chan :: "flag \<Rightarrow> flag option" where
  "close_chan c = (case c of Open \<Rightarrow> Some Closed | Closed \<Rightarrow> None)"

definition readClosed :: "retrier \<Rightarrow> bool" where
  "readClosed r = closed (readCloseFlag r)"

definition writeClosed :: "retrier \<Rightarrow> bool" where
  "writeClosed r = closed (writeCloseFlag r)"

definition retryCompleted :: "retrier \<Rightarrow> bool" where
  "retryCompleted r = closed (retryCompleteFlag r)"

subsection \<open>The timeout\<close>

text \<open>
  A \<^verbatim>\<open>time.Time\<close> is an instant, counted in nanoseconds. A \<^verbatim>\<open>time.Duration\<close> is an
  \<^verbatim>\<open>int64\<close> of nanoseconds: its arithmetic wraps around, and \<^verbatim>\<open>Time.Sub\<close> returns the
  largest or the smallest duration when the difference does not fit.
\<close>

definition maxDuration :: int where
  "maxDuration = 2 ^ 63 - 1"

definition minDuration :: int where
  "minDuration = - (2 ^ 63)"

definition Time_Sub :: "int \<Rightarrow> int \<Rightarrow> 64 word" where
  "Time_Sub t u =
     (let d = t - u in
      if d > maxDuration then word_of_int maxDuration
      else if d < minDuration then word_of_int minDuration
      else word_of_int d)"

definition Millisecond :: "64 word" where
  "Millisecond = 1000000"

definition timeout :: "int \<Rightarrow> int \<Rightarrow> 64 word" where
  "timeout t_before t_after =
     (let rtt = Time_Sub t_after t_before in 1200 * Millisecond + 2 * rtt)"

subsection \<open>Construction\<close>

text \<open>
  \<^verbatim>\<open>DialWithSplitRetry\<close>. The environment: the two readings of the clock and what
  \<^verbatim>\<open>net.DialTCP\<close> returned. The log of the new stream starts empty: it records what the
  methods of the stream do.
\<close>

record dial_env =
  now_before :: int
  dialed :: "error + tcpconn"
  now_after :: int

definition DialWithSplitRetry :: "dial_env \<Rightarrow> string \<Rightarrow> string \<Rightarrow> error + retrier" where
  "DialWithSplitRetry e nw ad =
     (case dialed e of
        Inl err \<Rightarrow> Inl err
      | Inr c \<Rightarrow>
          Inr \<lparr> network = nw, addr = ad, conn = Some c,
                timeout_field = timeout (now_before e) (now_after e),
                hello = [],
                retryCompleteFlag = Open, readCloseFlag = Open, writeCloseFlag = Open,
                trace = [] \<rparr>)"

subsection \<open>Splitting the hello\<close>

text \<open>
  \<^verbatim>\<open>splitHello\<close>; \<open>i\<close> is the number that \<^verbatim>\<open>rand.Intn(MAX_SPLIT+1-MIN_SPLIT)\<close> returned.
  \<^verbatim>\<open>hello[:s]\<close> and \<^verbatim>\<open>hello[s:]\<close> are \<open>take\<close> and \<open>drop\<close>, since \<open>s\<close> is at most half
  the length.
\<close>

definition MIN_SPLIT :: nat where
  "MIN_SPLIT = 32"

definition MAX_SPLIT :: nat where
  "MAX_SPLIT = 64"

definition splitHello :: "nat \<Rightarrow> byte list \<Rightarrow> byte list \<times> byte list" where
  "splitHello i hel =
     (if length hel = 0 then (hel, hel)
      else
        let s = MIN_SPLIT + i;
            limit = length hel div 2;
            s = (if s > limit then limit else s)
        in (take s hel, drop s hel))"

subsection \<open>Sockets\<close>

text \<open>
  \<^verbatim>\<open>(*net.TCPConn).Write(b)\<close> on a socket: the network decides how many bytes it takes
  and whether it reports an error; the count is never more than \<^verbatim>\<open>len(b)\<close>.

  A method call on the nil \<^verbatim>\<open>*net.TCPConn\<close> is a run-time panic: the methods reach the
  embedded \<^verbatim>\<open>conn\<close> through the pointer (\<^verbatim>\<open>&(*c).conn\<close>), which Go defines to panic for
  the nil pointer. In the functions below that is the branch \<open>None \<Rightarrow> Panicked\<close>.
\<close>

definition conn_Write :: "io \<Rightarrow> byte list \<Rightarrow> io" where
  "conn_Write w b = (min (fst w) (length b), snd w)"

subsection \<open>Read and retry\<close>

record retry_env =
  dial :: "error + tcpconn"
  intn :: nat
  write_first :: io
  write_second :: io
  read_new :: io

definition retry :: "retry_env \<Rightarrow> retrier \<Rightarrow> io outcome \<times> retrier" where
  "retry e r =
     (case conn r of
        None \<Rightarrow> (Panicked, r)
      | Some old \<Rightarrow>
          let r1 = emit (ConnClose old) r in
          (case dial e of
             Inl err \<Rightarrow>
               (Returned (0, Some err),
                emit (NetDialTCP (network r1) (addr r1) None) (r1\<lparr>conn := None\<rparr>))
           | Inr c \<Rightarrow>
               let r2 = emit (NetDialTCP (network r1) (addr r1) (Some c)) (r1\<lparr>conn := Some c\<rparr>);
                   first = fst (splitHello (intn e) (hello r2));
                   second = snd (splitHello (intn e) (hello r2));
                   err1 = snd (conn_Write (write_first e) first);
                   r3 = emit (ConnWrite c first) r2
               in
               if err1 \<noteq> None then (Returned (0, err1), r3)
               else
                 let err2 = snd (conn_Write (write_second e) second);
                     r4 = emit (ConnWrite c second) r3
                 in
                 if err2 \<noteq> None then (Returned (0, err2), r4)
                 else
                   let r5 = (if readClosed r4 then emit (ConnCloseRead c) r4 else r4);
                       r6 = (if writeClosed r5 then emit (ConnCloseWrite c) r5 else r5)
                   in (Returned (read_new e), emit (ConnRead c) r6)))"

record read_env =
  read_cur :: io
  on_retry :: retry_env

text \<open>
  \<^verbatim>\<open>Read\<close>. The contents of \<^verbatim>\<open>buf\<close> are not modelled, only the count and the error.
  The part between \<^verbatim>\<open>Lock\<close> and \<^verbatim>\<open>Unlock\<close> is one step.
\<close>

definition Read :: "read_env \<Rightarrow> retrier \<Rightarrow> io outcome \<times> retrier" where
  "Read e r =
     (case conn r of
        None \<Rightarrow> (Panicked, r)
      | Some c \<Rightarrow>
          let r1 = emit (ConnRead c) r;
              n = fst (read_cur e);
              err = snd (read_cur e)
          in
          if n = 0 \<and> err = None then (Returned (n, err), r1)
          else if \<not> retryCompleted r1 then
            bind_o (if err \<noteq> None then retry (on_retry e) r1 else (Returned (n, err), r1))
              (\<lambda>res r2.
                 case close_chan (retryCompleteFlag r2) of
                   None \<Rightarrow> (Panicked, r2)
                 | Some f \<Rightarrow> (Returned res, r2\<lparr>retryCompleteFlag := f, hello := []\<rparr>))
          else (Returned (n, err), r1))"

definition CloseRead :: "error option \<Rightarrow> retrier \<Rightarrow> error option outcome \<times> retrier" where
  "CloseRead e r =
     bind_o
       (if \<not> readClosed r then
          (case close_chan (readCloseFlag r) of
             None \<Rightarrow> (Panicked, r)
           | Some f \<Rightarrow> (Returned (), r\<lparr>readCloseFlag := f\<rparr>))
        else (Returned (), r))
       (\<lambda>_ r1.
          case conn r1 of
            None \<Rightarrow> (Panicked, r1)
          | Some c \<Rightarrow> (Returned e, emit (ConnCloseRead c) r1))"

subsection \<open>Write\<close>

text \<open>The local variables of a call of \<^verbatim>\<open>Write\<close>.\<close>

record write_frame =
  wf_b :: "byte list"
  wf_conn :: "tcpconn option"
  wf_n :: nat
  wf_err :: "error option"

text \<open>What the network answers to the three calls of \<^verbatim>\<open>conn.Write\<close> in \<^verbatim>\<open>Write\<close>.\<close>

record write_env =
  w_provisional :: io
  w_remainder :: io
  w_final :: io

text \<open>
  The first block of \<^verbatim>\<open>Write\<close>, the double-checked locking: the write on the
  provisional socket, the append to \<^verbatim>\<open>hello\<close> and the read deadline.
\<close>

definition Write_provisional ::
  "write_env \<Rightarrow> byte list \<Rightarrow> retrier \<Rightarrow> write_frame outcome \<times> retrier" where
  "Write_provisional e b r =
     (let fr = \<lparr> wf_b = b, wf_conn = None, wf_n = 0, wf_err = None \<rparr> in
      if \<not> retryCompleted r then
        if \<not> retryCompleted r then
          (case conn r of
             None \<Rightarrow> (Panicked, r)
           | Some c \<Rightarrow>
               let n = fst (conn_Write (w_provisional e) b);
                   err = snd (conn_Write (w_provisional e) b);
                   r1 = emit (ConnWrite c b) r;
                   r2 = r1\<lparr>hello := hello r1 @ take n b\<rparr>;
                   r3 = emit (ConnSetReadDeadline c (timeout_field r2)) r2
               in (Returned (fr\<lparr>wf_conn := Some c, wf_n := n, wf_err := err\<rparr>), r3))
        else (Returned fr, r)
      else (Returned fr, r))"

text \<open>
  The second block, \<^verbatim>\<open>if err != nil\<close>: the receive from \<^verbatim>\<open>retryCompleteFlag\<close> blocks
  while the flag is open. \<^verbatim>\<open>b[n:]\<close> panics when \<open>n\<close> is beyond the length.
\<close>

definition Write_remainder ::
  "write_env \<Rightarrow> write_frame \<Rightarrow> retrier \<Rightarrow> write_frame outcome \<times> retrier" where
  "Write_remainder e fr r =
     (if wf_err fr \<noteq> None then
        if \<not> retryCompleted r then (Blocked, r)
        else
          (case conn r of
             None \<Rightarrow> (Panicked, r)
           | Some c \<Rightarrow>
               if wf_n fr > length (wf_b fr) then (Panicked, r)
               else
                 let rest = drop (wf_n fr) (wf_b fr);
                     m = fst (conn_Write (w_remainder e) rest);
                     err = snd (conn_Write (w_remainder e) rest)
                 in (Returned (fr\<lparr>wf_conn := Some c, wf_n := wf_n fr + m, wf_err := err\<rparr>),
                     emit (ConnWrite c rest) r))
      else (Returned fr, r))"

text \<open>The third block, \<^verbatim>\<open>if conn == nil\<close>, and the return.\<close>

definition Write_final ::
  "write_env \<Rightarrow> write_frame \<Rightarrow> retrier \<Rightarrow> io outcome \<times> retrier" where
  "Write_final e fr r =
     (if wf_conn fr = None then
        (case conn r of
           None \<Rightarrow> (Panicked, r)
         | Some c \<Rightarrow> (Returned (conn_Write (w_final e) (wf_b fr)), emit (ConnWrite c (wf_b fr)) r))
      else (Returned (wf_n fr, wf_err fr), r))"

text \<open>A call that stands at \<^verbatim>\<open>if err != nil\<close> with the local variables \<open>fr\<close>.\<close>

definition Write_resume :: "write_env \<Rightarrow> write_frame \<Rightarrow> retrier \<Rightarrow> io outcome \<times> retrier" where
  "Write_resume e fr r = bind_o (Write_remainder e fr r) (Write_final e)"

definition Write :: "write_env \<Rightarrow> byte list \<Rightarrow> retrier \<Rightarrow> io outcome \<times> retrier" where
  "Write e b r = bind_o (Write_provisional e b r) (Write_resume e)"

definition CloseWrite :: "error option \<Rightarrow> retrier \<Rightarrow> error option outcome \<times> retrier" where
  "CloseWrite e r =
     bind_o
       (if \<not> writeClosed r then
          (case close_chan (writeCloseFlag r) of
             None \<Rightarrow> (Panicked, r)
           | Some f \<Rightarrow> (Returned (), r\<lparr>writeCloseFlag := f\<rparr>))
        else (Returned (), r))
       (\<lambda>_ r1.
          case conn r1 of
            None \<Rightarrow> (Panicked, r1)
          | Some c \<Rightarrow> (Returned e, emit (ConnCloseWrite c) r1))"

subsection \<open>ReadFrom\<close>

text \<open>
  One turn of the loop of \<^verbatim>\<open>ReadFrom\<close>: what \<^verbatim>\<open>reader.Read(buf)\<close> returned (at most
  2048 bytes, and an error) and what the network answers to the \<^verbatim>\<open>Write\<close> of these
  bytes. The reader is a finite script of such turns; when the script is used up the
  reader has nothing more to give and the call stays blocked in \<^verbatim>\<open>reader.Read\<close>.
\<close>

record chunk =
  ck_data :: "byte list"
  ck_err :: "error option"
  ck_write :: write_env

fun ReadFrom_loop :: "nat \<Rightarrow> io \<Rightarrow> chunk list \<Rightarrow> retrier \<Rightarrow> io outcome \<times> retrier" where
  "ReadFrom_loop bytes bulk [] r =
     (if \<not> retryCompleted r then (Blocked, r)
      else
        (case conn r of
           None \<Rightarrow> (Panicked, r)
         | Some c \<Rightarrow> (Returned (bytes + fst bulk, snd bulk), emit (ConnReadFrom c) r)))"
| "ReadFrom_loop bytes bulk (ck # cks) r =
     (if \<not> retryCompleted r then
        (case ck_err ck of
           Some err \<Rightarrow> (Returned (bytes, Some err), r)
         | None \<Rightarrow>
             (case Write (ck_write ck) (take 2048 (ck_data ck)) r of
                (Returned (n, err), r1) \<Rightarrow>
                  if err \<noteq> None then (Returned (bytes + n, err), r1)
                  else ReadFrom_loop (bytes + n) bulk cks r1
              | (Panicked, r1) \<Rightarrow> (Panicked, r1)
              | (Blocked, r1) \<Rightarrow> (Blocked, r1)))
      else
        (case conn r of
           None \<Rightarrow> (Panicked, r)
         | Some c \<Rightarrow> (Returned (bytes + fst bulk, snd bulk), emit (ConnReadFrom c) r)))"

record readfrom_env =
  rf_reader :: "chunk list"
  rf_bulk :: io

definition ReadFrom :: "readfrom_env \<Rightarrow> retrier \<Rightarrow> io outcome \<times> retrier" where
  "ReadFrom e r = ReadFrom_loop 0 (rf_bulk e) (rf_reader e) r"

text \<open>
  The bytes that the socket takes in the turns of the loop while the retry is undecided:
  in each turn the first \<open>n\<close> bytes of the chunk, \<open>n\<close> being the count that the write on
  the socket returned. The loop ends with the first error of the reader (the chunk that
  comes with it is not written) and with the first write that reports an error.
\<close>

fun ReadFrom_written :: "chunk list \<Rightarrow> byte list" where
  "ReadFrom_written [] = []"
| "ReadFrom_written (ck # cks) =
     (case ck_err ck of
        Some err \<Rightarrow> []
      | None \<Rightarrow>
          let b = take 2048 (ck_data ck);
              n = fst (conn_Write (w_provisional (ck_write ck)) b);
              err = snd (conn_Write (w_provisional (ck_write ck)) b)
          in take n b @ (if err \<noteq> None then [] else ReadFrom_written cks))"

subsection \<open>Sequences of operations\<close>

text \<open>
  The calls that can be made on a stream. \<open>OpWriteResume\<close> is a call of \<^verbatim>\<open>Write\<close> that
  was blocked and goes on from \<^verbatim>\<open>if err != nil\<close>, with any local variables. A
  \<^verbatim>\<open>ReadFrom\<close> that was blocked inside its \<^verbatim>\<open>Write\<close> goes on as an \<open>OpWriteResume\<close> and
  then an \<open>OpReadFrom\<close> on the rest of the reader.
\<close>

datatype op =
    OpRead read_env
  | OpWrite write_env "byte list"
  | OpWriteResume write_env write_frame
  | OpReadFrom readfrom_env
  | OpCloseRead "error option"
  | OpCloseWrite "error option"

datatype ret = RetIO io | RetErr "error option"

fun exec :: "op \<Rightarrow> retrier \<Rightarrow> ret outcome \<times> retrier" where
  "exec (OpRead e) r = bind_o (Read e r) (\<lambda>x r1. (Returned (RetIO x), r1))"
| "exec (OpWrite e b) r = bind_o (Write e b r) (\<lambda>x r1. (Returned (RetIO x), r1))"
| "exec (OpWriteResume e fr) r = bind_o (Write_resume e fr r) (\<lambda>x r1. (Returned (RetIO x), r1))"
| "exec (OpReadFrom e) r = bind_o (ReadFrom e r) (\<lambda>x r1. (Returned (RetIO x), r1))"
| "exec (OpCloseRead e) r = bind_o (CloseRead e r) (\<lambda>x r1. (Returned (RetErr x), r1))"
| "exec (OpCloseWrite e) r = bind_o (CloseWrite e r) (\<lambda>x r1. (Returned (RetErr x), r1))"

text \<open>A panic ends the program: the operations after it do not run.\<close>

fun run :: "op list \<Rightarrow> retrier \<Rightarrow> retrier" where
  "run [] r = r"
| "run (p # ps) r =
     (case exec p r of
        (Panicked, r1) \<Rightarrow> r1
      | (Returned x, r1) \<Rightarrow> run ps r1
      | (Blocked, r1) \<Rightarrow> run ps r1)"

text \<open>How often the stream has dialed again.\<close>

fun is_dial :: "event \<Rightarrow> bool" where
  "is_dial (NetDialTCP nw ad c) = True"
| "is_dial ev = False"

definition retries :: "retrier \<Rightarrow> nat" where
  "retries r = length (filter is_dial (trace r))"

subsection \<open>The invariant of the retry\<close>

text \<open>
  While the retry is undecided the stream has not dialed again, and afterwards it has
  dialed again at most once.
\<close>

definition retry_inv :: "retrier \<Rightarrow> bool" where
  "retry_inv r = (if retryCompleted r then retries r \<le> 1 else retries r = 0)"

text \<open>The replay buffer is empty whenever the retry is decided.\<close>

definition hello_inv :: "retrier \<Rightarrow> bool" where
  "hello_inv r = (retryCompleted r \<longrightarrow> hello r = [])"

text \<open>Two states agree on every field of the Go struct (they may differ in the log).\<close>

definition same_fields :: "retrier \<Rightarrow> retrier \<Rightarrow> bool" where
  "same_fields r r' = (r'\<lparr>trace := trace r\<rparr> = r)"

subsection \<open>A stream and answers of the network, for the examples\<close>

definition ex_dial :: dial_env where
  "ex_dial = \<lparr> now_before = 0, dialed = Inr 0, now_after = 5000000 \<rparr>"

definition ex_stream :: retrier where
  "ex_stream =
     \<lparr> network = ''tcp'', addr = ''192.0.2.1:443'', conn = Some 0,
       timeout_field = 1210000000, hello = [],
       retryCompleteFlag = Open, readCloseFlag = Open, writeCloseFlag = Open,
       trace = [] \<rparr>"

definition ex_hello :: "byte list" where
  "ex_hello = [22, 3, 1, 0, 5]"

definition ex_write_ok :: write_env where
  "ex_write_ok = \<lparr> w_provisional = (5, None), w_remainder = (3, None), w_final = (5, None) \<rparr>"

definition ex_write_reset :: write_env where
  "ex_write_reset = \<lparr> w_provisional = (2, Some ECONNRESET), w_remainder = (3, None), w_final = (5, None) \<rparr>"

definition ex_read_retry :: read_env where
  "ex_read_retry =
     \<lparr> read_cur = (0, Some ECONNRESET),
       on_retry = \<lparr> dial = Inr 1, intn = 7, write_first = (64, None),
                    write_second = (4096, None), read_new = (100, None) \<rparr> \<rparr>"

definition ex_read_empty :: read_env where
  "ex_read_empty =
     \<lparr> read_cur = (0, None),
       on_retry = \<lparr> dial = Inr 1, intn = 7, write_first = (64, None),
                    write_second = (4096, None), read_new = (100, None) \<rparr> \<rparr>"

definition ex_read_dial_fails :: read_env where
  "ex_read_dial_fails =
     \<lparr> read_cur = (0, Some ETIMEDOUT),
       on_retry = \<lparr> dial = Inl ECONNREFUSED, intn = 7, write_first = (64, None),
                    write_second = (4096, None), read_new = (100, None) \<rparr> \<rparr>"

definition ex_read_replay_fails :: read_env where
  "ex_read_replay_fails =
     \<lparr> read_cur = (0, Some ECONNRESET),
       on_retry = \<lparr> dial = Inr 1, intn = 7, write_first = (0, Some EPIPE),
                    write_second = (4096, None), read_new = (100, None) \<rparr> \<rparr>"

definition ex_read_data :: read_env where
  "ex_read_data =
     \<lparr> read_cur = (100, None),
       on_retry = \<lparr> dial = Inr 1, intn = 7, write_first = (64, None),
                    write_second = (4096, None), read_new = (100, None) \<rparr> \<rparr>"

definition ex_readfrom :: readfrom_env where
  "ex_readfrom =
     \<lparr> rf_reader =
         [\<lparr> ck_data = [22, 3, 1, 0, 5], ck_err = None,
            ck_write = \<lparr> w_provisional = (5, None), w_remainder = (0, None), w_final = (0, None) \<rparr> \<rparr>,
          \<lparr> ck_data = [9, 8], ck_err = None,
            ck_write = \<lparr> w_provisional = (1, Some EPIPE), w_remainder = (0, None), w_final = (0, None) \<rparr> \<rparr>,
          \<lparr> ck_data = [7], ck_err = None,
            ck_write = \<lparr> w_provisional = (1, None), w_remainder = (0, None), w_final = (0, None) \<rparr> \<rparr>],
       rf_bulk = (0, Some EOF) \<rparr>"

text \<open>States of the example stream.\<close>

definition ex_waiting :: retrier where
  "ex_waiting =
     \<lparr> network = ''tcp'', addr = ''192.0.2.1:443'', conn = Some 0,
       timeout_field = 1210000000, hello = [22, 3],
       retryCompleteFlag = Open, readCloseFlag = Open, writeCloseFlag = Open,
       trace = [ConnWrite 0 [22, 3, 1, 0, 5], ConnSetReadDeadline 0 1210000000] \<rparr>"

definition ex_frame :: write_frame where
  "ex_frame = \<lparr> wf_b = [22, 3, 1, 0, 5], wf_conn = Some 0, wf_n = 2, wf_err = Some ECONNRESET \<rparr>"

definition ex_dead :: retrier where
  "ex_dead =
     \<lparr> network = ''tcp'', addr = ''192.0.2.1:443'', conn = None,
       timeout_field = 1210000000, hello = [],
       retryCompleteFlag = Closed, readCloseFlag = Open, writeCloseFlag = Open,
       trace = [ConnWrite 0 [22, 3, 1, 0, 5], ConnSetReadDeadline 0 1210000000,
                ConnRead 0, ConnClose 0, NetDialTCP ''tcp'' ''192.0.2.1:443'' None] \<rparr>"

definition ex_replaced :: retrier where
  "ex_replaced =
     \<lparr> network = ''tcp'', addr = ''192.0.2.1:443'', conn = Some 1,
       timeout_field = 1210000000, hello = [],
       retryCompleteFlag = Closed, readCloseFlag = Open, writeCloseFlag = Open,
       trace = [ConnWrite 0 [22, 3, 1, 0, 5], ConnSetReadDeadline 0 1210000000,
                ConnRead 0, ConnClose 0, NetDialTCP ''tcp'' ''192.0.2.1:443'' (Some 1),
                ConnWrite 1 [22], ConnWrite 1 [3], ConnRead 1] \<rparr>"

definition ex_read_closed :: retrier where
  "ex_read_closed =
     \<lparr> network = ''tcp'', addr = ''192.0.2.1:443'', conn = Some 0,
       timeout_field = 1210000000, hello = [22, 3, 1, 0, 5],
       retryCompleteFlag = Open, readCloseFlag = Closed, writeCloseFlag = Open,
       trace = [ConnCloseRead 0, ConnWrite 0 [22, 3, 1, 0, 5],
                ConnSetReadDeadline 0 1210000000] \<rparr>"

section \<open>Basic facts\<close>

lemma closed_simps [simp]: "closed Open = False" "closed Closed = True"
  by (simp_all add: closed_def)

lemma close_chan_simps [simp]: "close_chan Open = Some Closed" "close_chan Closed = None"
  by (simp_all add: close_chan_def)

lemma closed_iff: "closed f \<longleftrightarrow> f = Closed"
  by (cases f) simp_all

lemma emit_fields [simp]:
  "network (emit ev r) = network r"
  "addr (emit ev r) = addr r"
  "conn (emit ev r) = conn r"
  "timeout_field (emit ev r) = timeout_field r"
  "hello (emit ev r) = hello r"
  "retryCompleteFlag (emit ev r) = retryCompleteFlag r"
  "readCloseFlag (emit ev r) = readCloseFlag r"
  "writeCloseFlag (emit ev r) = writeCloseFlag r"
  "trace (emit ev r) = trace r @ [ev]"
  by (simp_all add: emit_def)

lemma emit_preds [simp]:
  "retryCompleted (emit ev r) = retryCompleted r"
  "readClosed (emit ev r) = readClosed r"
  "writeClosed (emit ev r) = writeClosed r"
  by (simp_all add: retryCompleted_def readClosed_def writeClosed_def)

lemma retries_emit [simp]:
  "retries (emit ev r) = (if is_dial ev then Suc (retries r) else retries r)"
  by (simp add: retries_def)

lemma retries_update [simp]:
  "retries (r\<lparr>conn := x\<rparr>) = retries r"
  "retries (r\<lparr>hello := h\<rparr>) = retries r"
  "retries (r\<lparr>retryCompleteFlag := f\<rparr>) = retries r"
  "retries (r\<lparr>readCloseFlag := f\<rparr>) = retries r"
  "retries (r\<lparr>writeCloseFlag := f\<rparr>) = retries r"
  by (simp_all add: retries_def)

lemma preds_update [simp]:
  "retryCompleted (r\<lparr>conn := x\<rparr>) = retryCompleted r"
  "retryCompleted (r\<lparr>hello := h\<rparr>) = retryCompleted r"
  "retryCompleted (r\<lparr>readCloseFlag := f\<rparr>) = retryCompleted r"
  "retryCompleted (r\<lparr>writeCloseFlag := f\<rparr>) = retryCompleted r"
  "retryCompleted (r\<lparr>retryCompleteFlag := f\<rparr>) = closed f"
  "readClosed (r\<lparr>conn := x\<rparr>) = readClosed r"
  "readClosed (r\<lparr>hello := h\<rparr>) = readClosed r"
  "readClosed (r\<lparr>retryCompleteFlag := f\<rparr>) = readClosed r"
  "readClosed (r\<lparr>writeCloseFlag := f\<rparr>) = readClosed r"
  "readClosed (r\<lparr>readCloseFlag := f\<rparr>) = closed f"
  "writeClosed (r\<lparr>conn := x\<rparr>) = writeClosed r"
  "writeClosed (r\<lparr>hello := h\<rparr>) = writeClosed r"
  "writeClosed (r\<lparr>retryCompleteFlag := f\<rparr>) = writeClosed r"
  "writeClosed (r\<lparr>readCloseFlag := f\<rparr>) = writeClosed r"
  "writeClosed (r\<lparr>writeCloseFlag := f\<rparr>) = closed f"
  by (simp_all add: retryCompleted_def readClosed_def writeClosed_def)

lemma retry_frame:
  assumes "retry e r = (out, r')"
  shows "hello r' = hello r"
    and "retryCompleteFlag r' = retryCompleteFlag r"
    and "readCloseFlag r' = readCloseFlag r"
    and "writeCloseFlag r' = writeCloseFlag r"
    and "out \<noteq> Blocked"
    and "out = Panicked \<longleftrightarrow> conn r = None"
    and "retries r' = (if conn r = None then retries r else Suc (retries r))"
  using assms
  by (auto simp: retry_def Let_def split: option.splits sum.splits if_splits)

lemma not_closed_iff: "f \<noteq> Closed \<longleftrightarrow> f = Open" "f \<noteq> Open \<longleftrightarrow> f = Closed"
  by (cases f; simp)+

lemma Read_frame:
  assumes "Read e r = (out, r')"
  shows "readCloseFlag r' = readCloseFlag r"
    and "writeCloseFlag r' = writeCloseFlag r"
    and "out \<noteq> Blocked"
    and "retryCompleted r \<Longrightarrow> retryCompleteFlag r' = retryCompleteFlag r \<and> hello r' = hello r \<and> retries r' = retries r"
    and "\<not> retryCompleted r \<Longrightarrow>
           (\<not> retryCompleted r' \<and> hello r' = hello r \<and> retries r' = retries r) \<or>
           (retryCompleted r' \<and> hello r' = [] \<and>
              (retries r' = retries r \<or> retries r' = Suc (retries r) \<and> snd (read_cur e) \<noteq> None))"
proof -
  show "readCloseFlag r' = readCloseFlag r" "writeCloseFlag r' = writeCloseFlag r" "out \<noteq> Blocked"
    using assms
    by (auto simp: Read_def Let_def bind_o_def closed_iff retryCompleted_def
        split: option.splits if_splits outcome.splits prod.splits dest: retry_frame)
  show "retryCompleted r \<Longrightarrow> retryCompleteFlag r' = retryCompleteFlag r \<and> hello r' = hello r \<and> retries r' = retries r"
    using assms
    by (auto simp: Read_def Let_def split: option.splits if_splits)
  show "\<not> retryCompleted r \<Longrightarrow>
           (\<not> retryCompleted r' \<and> hello r' = hello r \<and> retries r' = retries r) \<or>
           (retryCompleted r' \<and> hello r' = [] \<and>
              (retries r' = retries r \<or> retries r' = Suc (retries r) \<and> snd (read_cur e) \<noteq> None))"
    using assms
    by (auto simp: Read_def Let_def bind_o_def closed_iff retryCompleted_def not_closed_iff
        split: option.splits if_splits outcome.splits prod.splits dest: retry_frame)
qed

lemma Write_provisional_frame:
  assumes "Write_provisional e b r = (out, r')"
  shows "retryCompleteFlag r' = retryCompleteFlag r"
    and "readCloseFlag r' = readCloseFlag r"
    and "writeCloseFlag r' = writeCloseFlag r"
    and "conn r' = conn r"
    and "retries r' = retries r"
    and "retryCompleted r \<Longrightarrow> hello r' = hello r"
    and "\<exists>bs. hello r' = hello r @ bs"
  using assms
  by (auto simp: Write_provisional_def Let_def split: option.splits if_splits)

lemma Write_resume_frame:
  assumes "Write_resume e fr r = (out, r')"
  shows "retryCompleteFlag r' = retryCompleteFlag r"
    and "readCloseFlag r' = readCloseFlag r"
    and "writeCloseFlag r' = writeCloseFlag r"
    and "conn r' = conn r"
    and "retries r' = retries r"
    and "hello r' = hello r"
  using assms
  by (auto simp: Write_resume_def Write_remainder_def Write_final_def bind_o_def Let_def
      split: option.splits if_splits)

lemma Write_frame:
  assumes "Write e b r = (out, r')"
  shows "retryCompleteFlag r' = retryCompleteFlag r"
    and "readCloseFlag r' = readCloseFlag r"
    and "writeCloseFlag r' = writeCloseFlag r"
    and "conn r' = conn r"
    and "retries r' = retries r"
    and "retryCompleted r \<Longrightarrow> hello r' = hello r"
    and "\<exists>bs. hello r' = hello r @ bs"
proof -
  obtain o1 r1 where p: "Write_provisional e b r = (o1, r1)"
    by (cases "Write_provisional e b r")
  note f1 = Write_provisional_frame [OF p]
  show "retryCompleteFlag r' = retryCompleteFlag r"
    and "readCloseFlag r' = readCloseFlag r"
    and "writeCloseFlag r' = writeCloseFlag r"
    and "conn r' = conn r"
    and "retries r' = retries r"
    and "retryCompleted r \<Longrightarrow> hello r' = hello r"
    and "\<exists>bs. hello r' = hello r @ bs"
    using assms p f1
    by (auto simp: Write_def bind_o_def split: outcome.splits dest: Write_resume_frame)
qed

lemma CloseRead_frame:
  assumes "CloseRead e r = (out, r')"
  shows "retryCompleteFlag r' = retryCompleteFlag r"
    and "readCloseFlag r' = Closed"
    and "writeCloseFlag r' = writeCloseFlag r"
    and "conn r' = conn r"
    and "retries r' = retries r"
    and "hello r' = hello r"
    and "out \<noteq> Blocked"
  using assms
  by (auto simp: CloseRead_def bind_o_def readClosed_def closed_iff not_closed_iff
      split: option.splits if_splits)

lemma CloseWrite_frame:
  assumes "CloseWrite e r = (out, r')"
  shows "retryCompleteFlag r' = retryCompleteFlag r"
    and "readCloseFlag r' = readCloseFlag r"
    and "writeCloseFlag r' = Closed"
    and "conn r' = conn r"
    and "retries r' = retries r"
    and "hello r' = hello r"
    and "out \<noteq> Blocked"
  using assms
  by (auto simp: CloseWrite_def bind_o_def writeClosed_def closed_iff not_closed_iff
      split: option.splits if_splits)

lemma ReadFrom_loop_frame:
  "ReadFrom_loop n bulk cks r = (out, r') \<Longrightarrow>
     retryCompleteFlag r' = retryCompleteFlag r \<and>
     readCloseFlag r' = readCloseFlag r \<and>
     writeCloseFlag r' = writeCloseFlag r \<and>
     conn r' = conn r \<and>
     retries r' = retries r \<and>
     (retryCompleted r \<longrightarrow> hello r' = hello r) \<and>
     (\<exists>bs. hello r' = hello r @ bs)"
proof (induction cks arbitrary: n r)
  case Nil
  then show ?case
    by (auto split: if_splits option.splits)
next
  case (Cons ck cks)
  show ?case
  proof (cases "retryCompleted r")
    case True
    with Cons.prems show ?thesis
      by (auto split: option.splits)
  next
    case still_open: False
    show ?thesis
    proof (cases "ck_err ck")
      case (Some err)
      with still_open Cons.prems show ?thesis by auto
    next
      case None
      obtain o1 r1 where w: "Write (ck_write ck) (take 2048 (ck_data ck)) r = (o1, r1)"
        by (cases "Write (ck_write ck) (take 2048 (ck_data ck)) r")
      note f = Write_frame [OF w]
      show ?thesis
      proof (cases o1)
        case (Returned x)
        obtain m err where x: "x = (m, err)" by (cases x)
        show ?thesis
        proof (cases err)
          case None': None
          from Cons.prems still_open None w Returned x None'
          have "ReadFrom_loop (n + m) bulk cks r1 = (out, r')" by simp
          from Cons.IH [OF this] f still_open show ?thesis
            by (auto simp: retryCompleted_def)
        next
          case (Some a)
          with Cons.prems still_open None w Returned x f show ?thesis by auto
        qed
      next
        case Panicked
        with Cons.prems still_open None w f show ?thesis by auto
      next
        case Blocked
        with Cons.prems still_open None w f show ?thesis by auto
      qed
    qed
  qed
qed

lemma exec_frame:
  assumes "exec p r = (out, r')"
  shows "retryCompleted r \<Longrightarrow> retryCompleted r' \<and> retries r' = retries r \<and> hello r' = hello r"
    and "readClosed r \<Longrightarrow> readClosed r'"
    and "writeClosed r \<Longrightarrow> writeClosed r'"
proof -
  show "retryCompleted r \<Longrightarrow> retryCompleted r' \<and> retries r' = retries r \<and> hello r' = hello r"
    using assms
    by (cases p)
      (auto simp: bind_o_def ReadFrom_def retryCompleted_def split: prod.splits outcome.splits
        dest: Read_frame Write_frame Write_resume_frame CloseRead_frame CloseWrite_frame ReadFrom_loop_frame)
  show "readClosed r \<Longrightarrow> readClosed r'"
    using assms
    by (cases p)
      (auto simp: bind_o_def ReadFrom_def readClosed_def split: prod.splits outcome.splits
        dest: Read_frame Write_frame Write_resume_frame CloseRead_frame CloseWrite_frame ReadFrom_loop_frame)
  show "writeClosed r \<Longrightarrow> writeClosed r'"
    using assms
    by (cases p)
      (auto simp: bind_o_def ReadFrom_def writeClosed_def split: prod.splits outcome.splits
        dest: Read_frame Write_frame Write_resume_frame CloseRead_frame CloseWrite_frame ReadFrom_loop_frame)
qed

lemmas ex_defs = ex_dial_def ex_stream_def ex_hello_def ex_write_ok_def ex_write_reset_def
  ex_read_retry_def

lemmas op_defs = Read_def retry_def Write_def Write_provisional_def Write_resume_def
  Write_remainder_def Write_final_def CloseRead_def CloseWrite_def ReadFrom_def bind_o_def
  emit_def conn_Write_def splitHello_def MIN_SPLIT_def MAX_SPLIT_def retryCompleted_def
  readClosed_def writeClosed_def Let_def retries_def

lemma ex_stream_dial: "DialWithSplitRetry ex_dial ''tcp'' ''192.0.2.1:443'' = Inr ex_stream"
  by (simp add: DialWithSplitRetry_def ex_defs timeout_def Time_Sub_def maxDuration_def minDuration_def Millisecond_def)

section \<open>Steps and runs\<close>

lemma exec_retries:
  assumes "exec p r = (out, r')"
  shows "retries r' = retries r \<or>
         retries r' = Suc (retries r) \<and> \<not> retryCompleted r \<and> retryCompleted r' \<and>
           (\<exists>e. p = OpRead e \<and> snd (read_cur e) \<noteq> None)"
proof (cases p)
  case (OpRead e)
  obtain o1 r1 where rd: "Read e r = (o1, r1)" by (cases "Read e r")
  have r1: "r1 = r'" using assms OpRead rd by (auto simp: bind_o_def split: outcome.splits)
  show ?thesis
    using Read_frame(4,5) [OF rd] OpRead r1 by (cases "retryCompleted r") auto
next
  case (OpWrite e b)
  then show ?thesis using assms
    by (auto simp: bind_o_def split: prod.splits outcome.splits dest: Write_frame)
next
  case (OpWriteResume e fr)
  then show ?thesis using assms
    by (auto simp: bind_o_def split: prod.splits outcome.splits dest: Write_resume_frame)
next
  case (OpReadFrom e)
  then show ?thesis using assms
    by (auto simp: bind_o_def ReadFrom_def split: prod.splits outcome.splits dest: ReadFrom_loop_frame)
next
  case (OpCloseRead e)
  then show ?thesis using assms
    by (auto simp: bind_o_def split: prod.splits outcome.splits dest: CloseRead_frame)
next
  case (OpCloseWrite e)
  then show ?thesis using assms
    by (auto simp: bind_o_def split: prod.splits outcome.splits dest: CloseWrite_frame)
qed

lemma exec_retry_inv:
  assumes "retry_inv r" "exec p r = (out, r')"
  shows "retry_inv r'"
proof (cases "retryCompleted r")
  case True
  with exec_frame(1) [OF assms(2)] assms(1) show ?thesis by (simp add: retry_inv_def)
next
  case False
  with exec_retries [OF assms(2)] assms(1) show ?thesis
    by (auto simp: retry_inv_def split: if_splits)
qed

lemma run_retry_inv: "retry_inv r \<Longrightarrow> retry_inv (run ops r)"
proof (induction ops arbitrary: r)
  case Nil
  then show ?case by simp
next
  case (Cons p ops)
  obtain out r1 where e: "exec p r = (out, r1)" by (cases "exec p r")
  from exec_retry_inv [OF Cons.prems e] have i: "retry_inv r1" .
  show ?case using e i Cons.IH [OF i] by (cases out) simp_all
qed

lemma dialed_stream:
  assumes "DialWithSplitRetry d nw ad = Inr r0"
  shows "hello r0 = []" "\<not> retryCompleted r0" "retries r0 = 0" "conn r0 \<noteq> None"
  using assms
  by (auto simp: DialWithSplitRetry_def retryCompleted_def retries_def split: sum.splits)

section \<open>The retry runs at most once\<close>

text \<open>
  Claim C1. Take a stream as \<^verbatim>\<open>DialWithSplitRetry\<close> returns it and any sequence of
  operations on it. The stream dials again at most once. A step dials again only when it
  is a \<^verbatim>\<open>Read\<close> whose read on the socket reported an error while the retry was undecided;
  it then dials exactly once and leaves the retry decided. Once the retry is decided it
  stays decided and no operation dials again.
\<close>

theorem retry_at_most_once:
  assumes "DialWithSplitRetry d nw ad = Inr r0"
  shows "retries (run ops r0) \<le> 1 \<and>
    (\<forall>p r. retries (snd (exec p r)) \<noteq> retries r \<longrightarrow>
        \<not> retryCompleted r \<and> (\<exists>e. p = OpRead e \<and> snd (read_cur e) \<noteq> None) \<and>
        retries (snd (exec p r)) = Suc (retries r) \<and> retryCompleted (snd (exec p r))) \<and>
    (\<forall>p r. retryCompleted r \<longrightarrow>
        retryCompleted (snd (exec p r)) \<and> retries (snd (exec p r)) = retries r)"
proof (intro conjI allI impI)
  have "retry_inv r0" using dialed_stream [OF assms] by (simp add: retry_inv_def)
  from run_retry_inv [OF this, of ops] show "retries (run ops r0) \<le> 1"
    by (cases "retryCompleted (run ops r0)") (simp_all add: retry_inv_def)
next
  fix p r
  assume ne: "retries (snd (exec p r)) \<noteq> retries r"
  obtain out r' where e: "exec p r = (out, r')" by (cases "exec p r")
  from exec_retries [OF e] ne e
  show "\<not> retryCompleted r" "\<exists>e. p = OpRead e \<and> snd (read_cur e) \<noteq> None"
    "retries (snd (exec p r)) = Suc (retries r)" "retryCompleted (snd (exec p r))"
    by auto
next
  fix p r
  assume c: "retryCompleted r"
  obtain out r' where e: "exec p r = (out, r')" by (cases "exec p r")
  from exec_frame(1) [OF e c] e
  show "retryCompleted (snd (exec p r))" "retries (snd (exec p r)) = retries r"
    by auto
qed

theorem retry_at_most_once_witness:
  "DialWithSplitRetry ex_dial ''tcp'' ''192.0.2.1:443'' = Inr ex_stream \<and>
   retries (run [OpWrite ex_write_ok ex_hello, OpWrite ex_write_ok ex_hello,
                 OpRead ex_read_retry, OpRead ex_read_retry,
                 OpWrite ex_write_ok ex_hello, OpRead ex_read_retry] ex_stream) \<le> 1 \<and>
   retries (snd (exec (OpRead ex_read_retry) ex_stream)) \<noteq> retries ex_stream \<and>
   \<not> retryCompleted ex_stream \<and>
   snd (read_cur ex_read_retry) \<noteq> None \<and>
   retries (snd (exec (OpRead ex_read_retry) ex_stream)) = Suc (retries ex_stream) \<and>
   retryCompleted (snd (exec (OpRead ex_read_retry) ex_stream)) \<and>
   retries (snd (exec (OpRead ex_read_retry) (snd (exec (OpRead ex_read_retry) ex_stream))))
     = retries (snd (exec (OpRead ex_read_retry) ex_stream))"
proof -
  note t = retry_at_most_once [OF ex_stream_dial]
  have a: "retries (snd (exec (OpRead ex_read_retry) ex_stream)) \<noteq> retries ex_stream"
    by (simp add: ex_defs op_defs)
  have b: "snd (read_cur ex_read_retry) \<noteq> None"
    by (simp add: ex_defs)
  from t a b ex_stream_dial show ?thesis by blast
qed

section \<open>The split\<close>

text \<open>
  Claim C2. For a payload of any length the two results of \<^verbatim>\<open>splitHello\<close>, put together,
  are the payload; for the empty payload both are empty; for a payload that is not empty
  and a draw \<open>s = MIN_SPLIT + i\<close> between 32 and 64 (\<open>i\<close> is what \<^verbatim>\<open>rand.Intn(33)\<close>
  returned), the length of the first result lies between \<open>min 32 (L div 2)\<close> and
  \<open>min 64 (L div 2)\<close>, where \<open>L\<close> is the length of the payload.
\<close>

theorem splitHello_correct:
  assumes "i < MAX_SPLIT + 1 - MIN_SPLIT"
  shows "fst (splitHello i p) @ snd (splitHello i p) = p \<and>
         (length p = 0 \<longrightarrow> splitHello i p = ([], [])) \<and>
         (0 < length p \<longrightarrow>
            min 32 (length p div 2) \<le> length (fst (splitHello i p)) \<and>
            length (fst (splitHello i p)) \<le> min 64 (length p div 2))"
  using assms
  by (auto simp: splitHello_def MIN_SPLIT_def MAX_SPLIT_def Let_def)

theorem splitHello_correct_witness:
  "(7 :: nat) < MAX_SPLIT + 1 - MIN_SPLIT \<and>
   fst (splitHello 7 (replicate 80 1)) @ snd (splitHello 7 (replicate 80 1)) = replicate 80 1 \<and>
   0 < length (replicate 80 (1 :: byte)) \<and>
   min 32 (length (replicate 80 (1 :: byte)) div 2) \<le> length (fst (splitHello 7 (replicate 80 1))) \<and>
   length (fst (splitHello 7 (replicate 80 1))) \<le> min 64 (length (replicate 80 (1 :: byte)) div 2) \<and>
   length ([] :: byte list) = 0 \<and>
   splitHello 7 [] = ([], [])"
proof -
  have i: "(7 :: nat) < MAX_SPLIT + 1 - MIN_SPLIT"
    by (simp add: MAX_SPLIT_def MIN_SPLIT_def)
  from splitHello_correct [OF i, of "replicate 80 1"] splitHello_correct [OF i, of "[]"] i
  show ?thesis by simp
qed

section \<open>The timeout\<close>

lemma sint_int64:
  "- (2 ^ 63) \<le> k \<Longrightarrow> k < 2 ^ 63 \<Longrightarrow> sint (word_of_int k :: 64 word) = k"
  by (simp only: sint_sbintrunc' signed_take_bit_int_eq_self_iff) simp

lemma timeout_word:
  "minDuration \<le> t1 - t0 \<Longrightarrow> t1 - t0 \<le> maxDuration \<Longrightarrow>
   timeout t0 t1 = word_of_int (1200000000 + 2 * (t1 - t0))"
  by (simp add: timeout_def Time_Sub_def Let_def Millisecond_def)

text \<open>
  Claim C9. For the instants \<open>t0\<close> before and \<open>t1\<close> after the first connect, \<^verbatim>\<open>timeout\<close>
  is 1200 milliseconds (1200000000 nanoseconds) plus twice \<open>t1 - t0\<close>. A duration is an
  \<^verbatim>\<open>int64\<close>: the equation is stated for the round-trip times whose result fits,
  which are all those of less than 146 years in either direction.
\<close>

theorem timeout_value:
  assumes "- (2 ^ 62) - 600000000 \<le> t1 - t0" and "t1 - t0 \<le> 2 ^ 62 - 600000001"
  shows "sint (timeout t0 t1) = 1200000000 + 2 * (t1 - t0)"
proof -
  have a: "minDuration \<le> t1 - t0" "t1 - t0 \<le> maxDuration"
    using assms by (simp_all add: minDuration_def maxDuration_def)
  have "- (2 ^ 63) \<le> 1200000000 + 2 * (t1 - t0)" "1200000000 + 2 * (t1 - t0) < 2 ^ 63"
    using assms by simp_all
  then have "sint (word_of_int (1200000000 + 2 * (t1 - t0)) :: 64 word) = 1200000000 + 2 * (t1 - t0)"
    by (rule sint_int64)
  then show ?thesis using timeout_word [OF a] by simp
qed

theorem timeout_value_witness:
  "- (2 ^ 62) - 600000000 \<le> (5000000 :: int) - 0 \<and>
   (5000000 :: int) - 0 \<le> 2 ^ 62 - 600000001 \<and>
   sint (timeout 0 5000000) = 1200000000 + 2 * (5000000 - 0) \<and>
   sint (timeout 0 5000000) = 1210000000"
  using timeout_value [of 5000000 0] by simp

section \<open>The replay buffer\<close>

lemma exec_flag:
  assumes "exec p r = (out, r')"
  shows "retryCompleteFlag r' = retryCompleteFlag r \<or>
         (\<exists>e. p = OpRead e) \<and> \<not> retryCompleted r \<and> retryCompleted r' \<and> hello r' = []"
proof (cases p)
  case (OpRead e)
  obtain o1 r1 where rd: "Read e r = (o1, r1)" by (cases "Read e r")
  have r1: "r1 = r'" using assms OpRead rd by (auto simp: bind_o_def split: outcome.splits)
  show ?thesis
    using Read_frame(4,5) [OF rd] OpRead r1
    by (cases "retryCompleted r") (auto simp: retryCompleted_def closed_iff not_closed_iff)
next
  case (OpWrite e b)
  then show ?thesis using assms
    by (auto simp: bind_o_def split: prod.splits outcome.splits dest: Write_frame)
next
  case (OpWriteResume e fr)
  then show ?thesis using assms
    by (auto simp: bind_o_def split: prod.splits outcome.splits dest: Write_resume_frame)
next
  case (OpReadFrom e)
  then show ?thesis using assms
    by (auto simp: bind_o_def ReadFrom_def split: prod.splits outcome.splits dest: ReadFrom_loop_frame)
next
  case (OpCloseRead e)
  then show ?thesis using assms
    by (auto simp: bind_o_def split: prod.splits outcome.splits dest: CloseRead_frame)
next
  case (OpCloseWrite e)
  then show ?thesis using assms
    by (auto simp: bind_o_def split: prod.splits outcome.splits dest: CloseWrite_frame)
qed

lemma exec_hello:
  assumes "exec p r = (out, r')"
  shows "hello r' = hello r \<or>
         hello r' = [] \<and> retryCompleted r' \<and> \<not> retryCompleted r \<or>
         (\<exists>bs. hello r' = hello r @ bs) \<and> \<not> retryCompleted r \<and>
           ((\<exists>e b. p = OpWrite e b) \<or> (\<exists>e. p = OpReadFrom e))"
proof (cases p)
  case (OpRead e)
  obtain o1 r1 where rd: "Read e r = (o1, r1)" by (cases "Read e r")
  have r1: "r1 = r'" using assms OpRead rd by (auto simp: bind_o_def split: outcome.splits)
  show ?thesis
    using Read_frame(4,5) [OF rd] OpRead r1 by (cases "retryCompleted r") auto
next
  case (OpWrite e b)
  obtain o1 r1 where w: "Write e b r = (o1, r1)" by (cases "Write e b r")
  have r1: "r1 = r'" using assms OpWrite w by (auto simp: bind_o_def split: outcome.splits)
  show ?thesis
    using Write_frame(6,7) [OF w] OpWrite r1 by (cases "retryCompleted r") auto
next
  case (OpWriteResume e fr)
  then show ?thesis using assms
    by (auto simp: bind_o_def split: prod.splits outcome.splits dest: Write_resume_frame)
next
  case (OpReadFrom e)
  obtain o1 r1 where w: "ReadFrom_loop 0 (rf_bulk e) (rf_reader e) r = (o1, r1)"
    by (cases "ReadFrom_loop 0 (rf_bulk e) (rf_reader e) r")
  have r1: "r1 = r'" using assms OpReadFrom w
    by (auto simp: bind_o_def ReadFrom_def split: outcome.splits)
  show ?thesis
    using ReadFrom_loop_frame [OF w] OpReadFrom r1 by (cases "retryCompleted r") auto
next
  case (OpCloseRead e)
  then show ?thesis using assms
    by (auto simp: bind_o_def split: prod.splits outcome.splits dest: CloseRead_frame)
next
  case (OpCloseWrite e)
  then show ?thesis using assms
    by (auto simp: bind_o_def split: prod.splits outcome.splits dest: CloseWrite_frame)
qed

lemma exec_hello_inv:
  assumes "hello_inv r" "exec p r = (out, r')"
  shows "hello_inv r'"
proof (cases "retryCompleted r")
  case True
  with exec_frame(1) [OF assms(2)] assms(1) show ?thesis by (simp add: hello_inv_def)
next
  case False
  with exec_flag [OF assms(2)] show ?thesis
    by (auto simp: hello_inv_def retryCompleted_def)
qed

lemma run_hello_inv: "hello_inv r \<Longrightarrow> hello_inv (run ops r)"
proof (induction ops arbitrary: r)
  case Nil
  then show ?case by simp
next
  case (Cons p ops)
  obtain out r1 where e: "exec p r = (out, r1)" by (cases "exec p r")
  from exec_hello_inv [OF Cons.prems e] have i: "hello_inv r1" .
  show ?case using e i Cons.IH [OF i] by (cases out) simp_all
qed

lemma Write_open_hello:
  assumes "\<not> retryCompleted r" "conn r = Some c"
  shows "hello (snd (Write e b r)) = hello r @ take (fst (conn_Write (w_provisional e) b)) b"
  using assms
  by (simp add: Write_def Write_provisional_def Write_resume_def Write_remainder_def
      Write_final_def bind_o_def Let_def)

lemma Write_open:
  assumes "\<not> retryCompleted r" and "conn r = Some c"
  shows "Write e b r =
    ((if snd (w_provisional e) = None then Returned (conn_Write (w_provisional e) b) else Blocked),
     r\<lparr> hello := hello r @ take (fst (conn_Write (w_provisional e) b)) b,
        trace := trace r @ [ConnWrite c b, ConnSetReadDeadline c (timeout_field r)] \<rparr>)"
  using assms
  by (simp add: Write_def Write_provisional_def Write_resume_def Write_remainder_def
      Write_final_def bind_o_def Let_def conn_Write_def emit_def retryCompleted_def)

lemma ReadFrom_loop_open_hello:
  "\<not> retryCompleted r \<Longrightarrow> conn r = Some c \<Longrightarrow>
   hello (snd (ReadFrom_loop n bulk cks r)) = hello r @ ReadFrom_written cks"
proof (induction cks arbitrary: n r)
  case Nil
  then show ?case by simp
next
  case (Cons ck cks)
  show ?case
  proof (cases "ck_err ck")
    case (Some err)
    with Cons.prems show ?thesis by simp
  next
    case None
    let ?b = "take 2048 (ck_data ck)"
    let ?w = "conn_Write (w_provisional (ck_write ck)) ?b"
    let ?r1 = "r\<lparr> hello := hello r @ take (fst ?w) ?b,
        trace := trace r @ [ConnWrite c ?b, ConnSetReadDeadline c (timeout_field r)] \<rparr>"
    note w = Write_open [OF Cons.prems, of "ck_write ck" ?b]
    have o: "\<not> retryCompleted ?r1" "conn ?r1 = Some c"
      using Cons.prems by (simp_all add: retryCompleted_def)
    show ?thesis
    proof (cases "snd (w_provisional (ck_write ck))")
      case ok: None
      have e: "snd ?w = None" using ok by (simp add: conn_Write_def)
      have "ReadFrom_loop n bulk (ck # cks) r = ReadFrom_loop (n + fst ?w) bulk cks ?r1"
        using Cons.prems(1) None w ok e by (simp add: conn_Write_def)
      then show ?thesis
        using Cons.IH [OF o, of "n + fst ?w"] None e by (simp add: Let_def)
    next
      case (Some err)
      have e: "snd ?w \<noteq> None" using Some by (simp add: conn_Write_def)
      have "ReadFrom_loop n bulk (ck # cks) r = (Blocked, ?r1)"
        using Cons.prems(1) None w Some by simp
      then show ?thesis
        using None e by (simp add: Let_def)
    qed
  qed
qed

lemma exec_nil_hello: "conn r = None \<Longrightarrow> hello (snd (exec p r)) = hello r"
proof (cases p)
  case (OpReadFrom e)
  assume c: "conn r = None"
  obtain out r' where l: "ReadFrom_loop 0 (rf_bulk e) (rf_reader e) r = (out, r')"
    by (cases "ReadFrom_loop 0 (rf_bulk e) (rf_reader e) r")
  have "hello r' = hello r"
  proof (cases "retryCompleted r")
    case True
    with ReadFrom_loop_frame [OF l] show ?thesis by simp
  next
    case False
    show ?thesis
    proof (cases "rf_reader e")
      case Nil
      with l False show ?thesis by auto
    next
      case (Cons ck cks)
      have "Write w b r = (Panicked, r)" for w b
        using c False
        by (simp add: Write_def Write_provisional_def bind_o_def Let_def)
      with l False Cons show ?thesis
        by (auto split: option.splits)
    qed
  qed
  with l OpReadFrom show ?thesis
    by (simp add: ReadFrom_def bind_o_def split: outcome.splits)
qed (auto simp: bind_o_def Read_def Write_def Write_provisional_def Write_resume_def
      Write_remainder_def Write_final_def CloseRead_def CloseWrite_def Let_def
      split: outcome.splits option.splits if_splits prod.splits)

lemma Read_first_data:
  assumes "\<not> retryCompleted r" and "conn r = Some c"
    and "snd (read_cur e) = None" and "fst (read_cur e) \<noteq> 0"
  shows "Read e r =
    (Returned (read_cur e),
     r\<lparr> hello := [], retryCompleteFlag := Closed, trace := trace r @ [ConnRead c] \<rparr>)"
  using assms
  by (cases "read_cur e")
     (simp add: Read_def bind_o_def Let_def emit_def retryCompleted_def closed_iff not_closed_iff)

lemma Read_first_error:
  assumes "\<not> retryCompleted r" and "conn r = Some c" and "snd (read_cur e) = Some err"
  shows "retryCompleted (snd (Read e r)) \<and> hello (snd (Read e r)) = [] \<and>
         retries (snd (Read e r)) = Suc (retries r)"
proof -
  let ?r1 = "emit (ConnRead c) r"
  obtain out r2 where t: "retry (on_retry e) ?r1 = (out, r2)"
    by (cases "retry (on_retry e) ?r1")
  have c1: "conn ?r1 = Some c" using assms(2) by simp
  note f = retry_frame [OF t]
  have p: "out \<noteq> Panicked" "out \<noteq> Blocked" using f c1 by auto
  then obtain res where o: "out = Returned res" by (cases out) auto
  have fl: "retryCompleteFlag r2 = Open"
    using f(2) assms(1) by (simp add: retryCompleted_def not_closed_iff closed_iff)
  have "Read e r = (Returned res, r2\<lparr>retryCompleteFlag := Closed, hello := []\<rparr>)"
    using assms t o fl
    by (simp add: Read_def bind_o_def Let_def retryCompleted_def)
  then show ?thesis
    using f(7) c1 by (simp add: retryCompleted_def)
qed

text \<open>
  Claim C3. The replay buffer \<^verbatim>\<open>hello\<close> of a stream that \<^verbatim>\<open>DialWithSplitRetry\<close> returns
  is empty. After any sequence of operations it is empty if the retry is decided. Once the
  retry is decided it stays decided and no operation changes the buffer. The step that
  decides the retry leaves the buffer empty. A step that changes the buffer without
  emptying it is a \<^verbatim>\<open>Write\<close> (or a \<^verbatim>\<open>ReadFrom\<close>, which calls \<^verbatim>\<open>Write\<close>) made while the
  retry is undecided, and it appends to the buffer. Such a \<^verbatim>\<open>Write\<close> appends exactly the
  first \<open>n\<close> bytes of its argument, \<open>n\<close> being the count that the write on the socket
  returned; such a \<^verbatim>\<open>ReadFrom\<close> appends exactly the bytes that its writes on the socket
  took, in order. On a stream without a socket no operation changes the buffer. While the
  retry is undecided, a \<^verbatim>\<open>Read\<close> whose read on the socket returns data and no error
  decides the retry and empties the buffer, and changes nothing else; a \<^verbatim>\<open>Read\<close> whose read
  on the socket reports an error runs the retry (the stream dials again), decides the retry
  and empties the buffer.
\<close>

theorem hello_lifecycle:
  assumes "DialWithSplitRetry d nw ad = Inr r0"
  shows "hello r0 = [] \<and>
    (retryCompleted (run ops r0) \<longrightarrow> hello (run ops r0) = []) \<and>
    (\<forall>p r. retryCompleted r \<longrightarrow>
        retryCompleted (snd (exec p r)) \<and> hello (snd (exec p r)) = hello r) \<and>
    (\<forall>p r. \<not> retryCompleted r \<and> retryCompleted (snd (exec p r)) \<longrightarrow>
        hello (snd (exec p r)) = []) \<and>
    (\<forall>p r. hello (snd (exec p r)) \<noteq> hello r \<and> hello (snd (exec p r)) \<noteq> [] \<longrightarrow>
        \<not> retryCompleted r \<and> (\<exists>bs. hello (snd (exec p r)) = hello r @ bs) \<and>
        ((\<exists>e b. p = OpWrite e b) \<or> (\<exists>e. p = OpReadFrom e))) \<and>
    (\<forall>e b r c. \<not> retryCompleted r \<and> conn r = Some c \<longrightarrow>
        hello (snd (Write e b r)) = hello r @ take (fst (conn_Write (w_provisional e) b)) b) \<and>
    (\<forall>e r c. \<not> retryCompleted r \<and> conn r = Some c \<longrightarrow>
        hello (snd (ReadFrom e r)) = hello r @ ReadFrom_written (rf_reader e)) \<and>
    (\<forall>p r. conn r = None \<longrightarrow> hello (snd (exec p r)) = hello r) \<and>
    (\<forall>e r c. \<not> retryCompleted r \<and> conn r = Some c \<and>
        snd (read_cur e) = None \<and> fst (read_cur e) \<noteq> 0 \<longrightarrow>
        Read e r =
          (Returned (read_cur e),
           r\<lparr> hello := [], retryCompleteFlag := Closed, trace := trace r @ [ConnRead c] \<rparr>)) \<and>
    (\<forall>e r c err. \<not> retryCompleted r \<and> conn r = Some c \<and> snd (read_cur e) = Some err \<longrightarrow>
        retryCompleted (snd (Read e r)) \<and> hello (snd (Read e r)) = [] \<and>
        retries (snd (Read e r)) = Suc (retries r))"
proof (intro conjI allI impI)
  show "hello r0 = []" using dialed_stream [OF assms] by simp
next
  assume c: "retryCompleted (run ops r0)"
  have "hello_inv r0" using dialed_stream [OF assms] by (simp add: hello_inv_def)
  from run_hello_inv [OF this, of ops] c show "hello (run ops r0) = []"
    by (simp add: hello_inv_def)
next
  fix p r
  assume c: "retryCompleted r"
  obtain out r' where e: "exec p r = (out, r')" by (cases "exec p r")
  from exec_frame(1) [OF e c] e
  show "retryCompleted (snd (exec p r))" "hello (snd (exec p r)) = hello r"
    by auto
next
  fix p r
  assume c: "\<not> retryCompleted r \<and> retryCompleted (snd (exec p r))"
  obtain out r' where e: "exec p r = (out, r')" by (cases "exec p r")
  from exec_flag [OF e] c e show "hello (snd (exec p r)) = []"
    by (auto simp: retryCompleted_def)
next
  fix p r
  assume c: "hello (snd (exec p r)) \<noteq> hello r \<and> hello (snd (exec p r)) \<noteq> []"
  obtain out r' where e: "exec p r = (out, r')" by (cases "exec p r")
  from exec_hello [OF e] c e
  show "\<not> retryCompleted r" "\<exists>bs. hello (snd (exec p r)) = hello r @ bs"
    "(\<exists>e b. p = OpWrite e b) \<or> (\<exists>e. p = OpReadFrom e)"
    by auto
next
  fix e b r c
  assume "\<not> retryCompleted r \<and> conn r = Some c"
  then show "hello (snd (Write e b r)) = hello r @ take (fst (conn_Write (w_provisional e) b)) b"
    using Write_open_hello by blast
next
  fix e r c
  assume "\<not> retryCompleted r \<and> conn r = Some c"
  then show "hello (snd (ReadFrom e r)) = hello r @ ReadFrom_written (rf_reader e)"
    unfolding ReadFrom_def using ReadFrom_loop_open_hello by blast
next
  fix p and r :: retrier
  assume "conn r = None"
  then show "hello (snd (exec p r)) = hello r" by (rule exec_nil_hello)
next
  fix e :: read_env and r c
  assume "\<not> retryCompleted r \<and> conn r = Some c \<and>
        snd (read_cur e) = None \<and> fst (read_cur e) \<noteq> 0"
  then show "Read e r =
          (Returned (read_cur e),
           r\<lparr> hello := [], retryCompleteFlag := Closed, trace := trace r @ [ConnRead c] \<rparr>)"
    using Read_first_data by blast
next
  fix e :: read_env and r c err
  assume a: "\<not> retryCompleted r \<and> conn r = Some c \<and> snd (read_cur e) = Some err"
  then have "retryCompleted (snd (Read e r)) \<and> hello (snd (Read e r)) = [] \<and>
        retries (snd (Read e r)) = Suc (retries r)"
    using Read_first_error by blast
  then show "retryCompleted (snd (Read e r))" "hello (snd (Read e r)) = []"
    "retries (snd (Read e r)) = Suc (retries r)"
    by simp_all
qed

theorem hello_lifecycle_witness:
  "DialWithSplitRetry ex_dial ''tcp'' ''192.0.2.1:443'' = Inr ex_stream \<and>
   hello ex_stream = [] \<and>
   \<not> retryCompleted ex_stream \<and> conn ex_stream = Some 0 \<and>
   hello (snd (Write ex_write_reset ex_hello ex_stream)) = [22, 3] \<and>
   hello (snd (exec (OpWrite ex_write_reset ex_hello) ex_stream)) \<noteq> hello ex_stream \<and>
   hello (snd (exec (OpWrite ex_write_reset ex_hello) ex_stream)) \<noteq> [] \<and>
   hello (snd (exec (OpWrite ex_write_reset ex_hello) ex_stream)) = hello ex_stream @ [22, 3] \<and>
   retryCompleted (snd (exec (OpRead ex_read_retry) ex_stream)) \<and>
   hello (snd (exec (OpRead ex_read_retry) ex_stream)) = [] \<and>
   retryCompleted (run [OpWrite ex_write_ok ex_hello, OpRead ex_read_retry,
                        OpWrite ex_write_ok ex_hello] ex_stream) \<and>
   hello (run [OpWrite ex_write_ok ex_hello, OpRead ex_read_retry,
               OpWrite ex_write_ok ex_hello] ex_stream) = [] \<and>
   hello (snd (exec (OpWrite ex_write_ok ex_hello) (snd (exec (OpRead ex_read_retry) ex_stream))))
     = hello (snd (exec (OpRead ex_read_retry) ex_stream)) \<and>
   ReadFrom_written (rf_reader ex_readfrom) = [22, 3, 1, 0, 5, 9] \<and>
   hello (snd (ReadFrom ex_readfrom ex_stream)) = [22, 3, 1, 0, 5, 9] \<and>
   conn (ex_stream\<lparr>conn := None\<rparr>) = None \<and>
   hello (snd (exec (OpWrite ex_write_ok ex_hello) (ex_stream\<lparr>conn := None\<rparr>)))
     = hello (ex_stream\<lparr>conn := None\<rparr>) \<and>
   \<not> retryCompleted (snd (Write ex_write_reset ex_hello ex_stream)) \<and>
   conn (snd (Write ex_write_reset ex_hello ex_stream)) = Some 0 \<and>
   snd (read_cur ex_read_data) = None \<and> fst (read_cur ex_read_data) \<noteq> 0 \<and>
   Read ex_read_data (snd (Write ex_write_reset ex_hello ex_stream)) =
     (Returned (100, None),
      \<lparr> network = ''tcp'', addr = ''192.0.2.1:443'', conn = Some 0,
        timeout_field = 1210000000, hello = [],
        retryCompleteFlag = Closed, readCloseFlag = Open, writeCloseFlag = Open,
        trace = [ConnWrite 0 [22, 3, 1, 0, 5], ConnSetReadDeadline 0 1210000000, ConnRead 0] \<rparr>) \<and>
   snd (read_cur ex_read_retry) = Some ECONNRESET \<and>
   retryCompleted (snd (Read ex_read_retry (snd (Write ex_write_reset ex_hello ex_stream)))) \<and>
   hello (snd (Read ex_read_retry (snd (Write ex_write_reset ex_hello ex_stream)))) = [] \<and>
   retries (snd (Read ex_read_retry (snd (Write ex_write_reset ex_hello ex_stream))))
     = Suc (retries (snd (Write ex_write_reset ex_hello ex_stream)))"
proof -
  let ?ops = "[OpWrite ex_write_ok ex_hello, OpRead ex_read_retry, OpWrite ex_write_ok ex_hello]"
  let ?w = "snd (Write ex_write_reset ex_hello ex_stream)"
  note t = hello_lifecycle [OF ex_stream_dial, of ?ops]
  note t2 = t [THEN conjunct2, THEN conjunct1]
  note t3 = t [THEN conjunct2, THEN conjunct2, THEN conjunct1]
  note t4 = t [THEN conjunct2, THEN conjunct2, THEN conjunct2, THEN conjunct1]
  note t6 = t [THEN conjunct2, THEN conjunct2, THEN conjunct2, THEN conjunct2, THEN conjunct2,
      THEN conjunct1]
  note t7 = t [THEN conjunct2, THEN conjunct2, THEN conjunct2, THEN conjunct2, THEN conjunct2,
      THEN conjunct2, THEN conjunct1]
  note t8 = t [THEN conjunct2, THEN conjunct2, THEN conjunct2, THEN conjunct2, THEN conjunct2,
      THEN conjunct2, THEN conjunct2, THEN conjunct1]
  note t9 = t [THEN conjunct2, THEN conjunct2, THEN conjunct2, THEN conjunct2, THEN conjunct2,
      THEN conjunct2, THEN conjunct2, THEN conjunct2, THEN conjunct1]
  note t10 = t [THEN conjunct2, THEN conjunct2, THEN conjunct2, THEN conjunct2, THEN conjunct2,
      THEN conjunct2, THEN conjunct2, THEN conjunct2, THEN conjunct2]
  have a: "\<not> retryCompleted ex_stream" "conn ex_stream = Some 0"
    by (simp_all add: ex_defs retryCompleted_def)
  have "hello ?w
      = hello ex_stream @ take (fst (conn_Write (w_provisional ex_write_reset) ex_hello)) ex_hello"
    using t6 a by blast
  moreover have "hello ex_stream @ take (fst (conn_Write (w_provisional ex_write_reset) ex_hello)) ex_hello
      = [22, 3]"
    by (simp add: ex_defs conn_Write_def)
  ultimately have b: "hello ?w = [22, 3]"
    by simp
  have c: "hello (snd (exec (OpWrite ex_write_reset ex_hello) ex_stream)) = [22, 3]"
    by (simp add: ex_defs op_defs)
  have c': "hello ex_stream = []" by (simp add: ex_defs)
  have d: "retryCompleted (snd (exec (OpRead ex_read_retry) ex_stream))"
    by (simp add: ex_defs op_defs)
  from t4 a d have d': "hello (snd (exec (OpRead ex_read_retry) ex_stream)) = []"
    by blast
  have e: "retryCompleted (run ?ops ex_stream)"
    by (simp add: ex_defs op_defs)
  from t2 e have e': "hello (run ?ops ex_stream) = []"
    by blast
  from t3 d have f: "hello (snd (exec (OpWrite ex_write_ok ex_hello) (snd (exec (OpRead ex_read_retry) ex_stream))))
     = hello (snd (exec (OpRead ex_read_retry) ex_stream))"
    by blast
  have g: "ReadFrom_written (rf_reader ex_readfrom) = [22, 3, 1, 0, 5, 9]"
    by (simp add: ex_readfrom_def conn_Write_def Let_def)
  from t7 a have "hello (snd (ReadFrom ex_readfrom ex_stream))
      = hello ex_stream @ ReadFrom_written (rf_reader ex_readfrom)"
    by blast
  then have g': "hello (snd (ReadFrom ex_readfrom ex_stream)) = [22, 3, 1, 0, 5, 9]"
    by (simp add: g c')
  have h: "conn (ex_stream\<lparr>conn := None\<rparr>) = None" by simp
  from t8 h have h': "hello (snd (exec (OpWrite ex_write_ok ex_hello) (ex_stream\<lparr>conn := None\<rparr>)))
     = hello (ex_stream\<lparr>conn := None\<rparr>)"
    by blast
  have w: "?w = \<lparr> network = ''tcp'', addr = ''192.0.2.1:443'', conn = Some 0,
        timeout_field = 1210000000, hello = [22, 3],
        retryCompleteFlag = Open, readCloseFlag = Open, writeCloseFlag = Open,
        trace = [ConnWrite 0 [22, 3, 1, 0, 5], ConnSetReadDeadline 0 1210000000] \<rparr>"
    by (simp add: ex_defs op_defs)
  have i: "\<not> retryCompleted ?w" "conn ?w = Some 0"
    by (simp_all add: w retryCompleted_def)
  have j: "snd (read_cur ex_read_data) = None" "fst (read_cur ex_read_data) \<noteq> 0"
    "read_cur ex_read_data = (100, None)"
    by (simp_all add: ex_read_data_def)
  from t9 i j(1,2) have "Read ex_read_data ?w =
      (Returned (read_cur ex_read_data),
       ?w\<lparr> hello := [], retryCompleteFlag := Closed, trace := trace ?w @ [ConnRead 0] \<rparr>)"
    by blast
  then have k: "Read ex_read_data ?w =
     (Returned (100, None),
      \<lparr> network = ''tcp'', addr = ''192.0.2.1:443'', conn = Some 0,
        timeout_field = 1210000000, hello = [],
        retryCompleteFlag = Closed, readCloseFlag = Open, writeCloseFlag = Open,
        trace = [ConnWrite 0 [22, 3, 1, 0, 5], ConnSetReadDeadline 0 1210000000, ConnRead 0] \<rparr>)"
    by (simp add: w j)
  have l: "snd (read_cur ex_read_retry) = Some ECONNRESET"
    by (simp add: ex_defs)
  from t10 i l have m: "retryCompleted (snd (Read ex_read_retry ?w))"
    "hello (snd (Read ex_read_retry ?w)) = []"
    "retries (snd (Read ex_read_retry ?w)) = Suc (retries ?w)"
    by blast+
  show ?thesis
    using ex_stream_dial a b c c' d d' e e' f g g' h h' i j(1,2) k l m by simp
qed

section \<open>The read that returns nothing\<close>

text \<open>
  Claim C7. When the read on the current socket returns zero bytes and the nil error,
  \<^verbatim>\<open>Read\<close> returns \<open>(0, nil)\<close> and no field of the stream changes: the retry flag, the
  replay buffer and the socket are as before, and the stream has not dialed. The log has
  the read on the socket and nothing else.
\<close>

theorem Read_empty_passes:
  assumes "conn r = Some c" and "read_cur e = (0, None)"
  shows "Read e r = (Returned (0, None), r\<lparr>trace := trace r @ [ConnRead c]\<rparr>) \<and>
         retryCompleteFlag (snd (Read e r)) = retryCompleteFlag r \<and>
         hello (snd (Read e r)) = hello r \<and>
         conn (snd (Read e r)) = conn r \<and>
         retries (snd (Read e r)) = retries r"
  using assms by (simp add: Read_def emit_def retries_def)

theorem Read_empty_passes_witness:
  "conn (snd (Write ex_write_ok ex_hello ex_stream)) = Some 0 \<and>
   read_cur ex_read_empty = (0, None) \<and>
   Read ex_read_empty (snd (Write ex_write_ok ex_hello ex_stream)) =
     (Returned (0, None),
      \<lparr> network = ''tcp'', addr = ''192.0.2.1:443'', conn = Some 0,
        timeout_field = 1210000000, hello = [22, 3, 1, 0, 5],
        retryCompleteFlag = Open, readCloseFlag = Open, writeCloseFlag = Open,
        trace = [ConnWrite 0 [22, 3, 1, 0, 5], ConnSetReadDeadline 0 1210000000, ConnRead 0] \<rparr>)"
proof -
  have w: "snd (Write ex_write_ok ex_hello ex_stream) =
      \<lparr> network = ''tcp'', addr = ''192.0.2.1:443'', conn = Some 0,
        timeout_field = 1210000000, hello = [22, 3, 1, 0, 5],
        retryCompleteFlag = Open, readCloseFlag = Open, writeCloseFlag = Open,
        trace = [ConnWrite 0 [22, 3, 1, 0, 5], ConnSetReadDeadline 0 1210000000] \<rparr>"
    by (simp add: ex_defs ex_read_empty_def op_defs)
  have c: "conn (snd (Write ex_write_ok ex_hello ex_stream)) = Some 0"
    by (simp add: w)
  have e: "read_cur ex_read_empty = (0, None)"
    by (simp add: ex_read_empty_def)
  from Read_empty_passes [OF c e] c e show ?thesis
    by (simp add: w)
qed

section \<open>Closing a half twice\<close>

lemma run_readClosed: "readClosed r \<Longrightarrow> readClosed (run ops r)"
proof (induction ops arbitrary: r)
  case Nil
  then show ?case by simp
next
  case (Cons p ops)
  obtain out r1 where e: "exec p r = (out, r1)" by (cases "exec p r")
  from exec_frame(2) [OF e Cons.prems] have "readClosed r1" .
  with e Cons.IH [of r1] show ?case by (cases out) simp_all
qed

lemma run_writeClosed: "writeClosed r \<Longrightarrow> writeClosed (run ops r)"
proof (induction ops arbitrary: r)
  case Nil
  then show ?case by simp
next
  case (Cons p ops)
  obtain out r1 where e: "exec p r = (out, r1)" by (cases "exec p r")
  from exec_frame(3) [OF e Cons.prems] have "writeClosed r1" .
  with e Cons.IH [of r1] show ?case by (cases out) simp_all
qed

lemma CloseRead_twice:
  "readClosed (snd (CloseRead e1 r))"
  "same_fields (snd (CloseRead e1 r)) (snd (CloseRead e2 (snd (CloseRead e1 r))))"
  by (cases "conn r"; cases "readCloseFlag r";
      simp add: CloseRead_def bind_o_def readClosed_def same_fields_def emit_def)+

lemma CloseWrite_twice:
  "writeClosed (snd (CloseWrite e1 r))"
  "same_fields (snd (CloseWrite e1 r)) (snd (CloseWrite e2 (snd (CloseWrite e1 r))))"
  by (cases "conn r"; cases "writeCloseFlag r";
      simp add: CloseWrite_def bind_o_def writeClosed_def same_fields_def emit_def)+

text \<open>
  Claim C8. After \<^verbatim>\<open>CloseRead\<close> the read flag is closed, and a second \<^verbatim>\<open>CloseRead\<close> leaves
  every field of the stream as the first one left it. On a stream that has a socket the
  first call returns what the socket's \<^verbatim>\<open>CloseRead\<close> returns, and so does the second: it
  does not close the flag again (which would panic), it only forwards the half-close to the
  socket once more. The same holds for \<^verbatim>\<open>CloseWrite\<close>. A closed flag stays closed through
  every sequence of operations.
\<close>

theorem half_close_idempotent:
  "readClosed (snd (CloseRead e1 r)) \<and>
   same_fields (snd (CloseRead e1 r)) (snd (CloseRead e2 (snd (CloseRead e1 r)))) \<and>
   writeClosed (snd (CloseWrite e1 r)) \<and>
   same_fields (snd (CloseWrite e1 r)) (snd (CloseWrite e2 (snd (CloseWrite e1 r)))) \<and>
   (conn r = Some c \<longrightarrow>
      CloseRead e1 r = (Returned e1, emit (ConnCloseRead c) (r\<lparr>readCloseFlag := Closed\<rparr>)) \<and>
      CloseRead e2 (snd (CloseRead e1 r)) =
        (Returned e2, emit (ConnCloseRead c) (snd (CloseRead e1 r))) \<and>
      CloseWrite e1 r = (Returned e1, emit (ConnCloseWrite c) (r\<lparr>writeCloseFlag := Closed\<rparr>)) \<and>
      CloseWrite e2 (snd (CloseWrite e1 r)) =
        (Returned e2, emit (ConnCloseWrite c) (snd (CloseWrite e1 r)))) \<and>
   (\<forall>ops s. readClosed s \<longrightarrow> readClosed (run ops s)) \<and>
   (\<forall>ops s. writeClosed s \<longrightarrow> writeClosed (run ops s))"
proof (intro conjI allI impI)
  show "readClosed (snd (CloseRead e1 r))"
    "same_fields (snd (CloseRead e1 r)) (snd (CloseRead e2 (snd (CloseRead e1 r))))"
    by (rule CloseRead_twice)+
  show "writeClosed (snd (CloseWrite e1 r))"
    "same_fields (snd (CloseWrite e1 r)) (snd (CloseWrite e2 (snd (CloseWrite e1 r))))"
    by (rule CloseWrite_twice)+
next
  assume c: "conn r = Some c"
  show 1: "CloseRead e1 r = (Returned e1, emit (ConnCloseRead c) (r\<lparr>readCloseFlag := Closed\<rparr>))"
    using c by (cases "readCloseFlag r") (simp_all add: CloseRead_def bind_o_def readClosed_def)
  show "CloseRead e2 (snd (CloseRead e1 r)) =
       (Returned e2, emit (ConnCloseRead c) (snd (CloseRead e1 r)))"
    using c by (simp add: 1) (simp add: CloseRead_def bind_o_def readClosed_def)
  show 2: "CloseWrite e1 r = (Returned e1, emit (ConnCloseWrite c) (r\<lparr>writeCloseFlag := Closed\<rparr>))"
    using c by (cases "writeCloseFlag r") (simp_all add: CloseWrite_def bind_o_def writeClosed_def)
  show "CloseWrite e2 (snd (CloseWrite e1 r)) =
       (Returned e2, emit (ConnCloseWrite c) (snd (CloseWrite e1 r)))"
    using c by (simp add: 2) (simp add: CloseWrite_def bind_o_def writeClosed_def)
next
  fix ops s
  assume "readClosed s"
  then show "readClosed (run ops s)" by (rule run_readClosed)
next
  fix ops s
  assume "writeClosed s"
  then show "writeClosed (run ops s)" by (rule run_writeClosed)
qed

theorem half_close_idempotent_witness:
  "conn ex_stream = Some 0 \<and>
   CloseRead None ex_stream = (Returned None, ex_stream\<lparr>readCloseFlag := Closed, trace := [ConnCloseRead 0]\<rparr>) \<and>
   CloseRead None (snd (CloseRead None ex_stream)) =
     (Returned None, ex_stream\<lparr>readCloseFlag := Closed, trace := [ConnCloseRead 0, ConnCloseRead 0]\<rparr>) \<and>
   CloseWrite None ex_stream = (Returned None, ex_stream\<lparr>writeCloseFlag := Closed, trace := [ConnCloseWrite 0]\<rparr>) \<and>
   CloseWrite None (snd (CloseWrite None ex_stream)) =
     (Returned None, ex_stream\<lparr>writeCloseFlag := Closed, trace := [ConnCloseWrite 0, ConnCloseWrite 0]\<rparr>) \<and>
   readClosed (snd (CloseRead None ex_stream)) \<and>
   readClosed (run [OpWrite ex_write_ok ex_hello, OpRead ex_read_retry, OpCloseRead None]
                (snd (CloseRead None ex_stream))) \<and>
   writeClosed (snd (CloseWrite None ex_stream)) \<and>
   writeClosed (run [OpWrite ex_write_ok ex_hello, OpRead ex_read_retry, OpCloseWrite None]
                 (snd (CloseWrite None ex_stream)))"
proof -
  note t = half_close_idempotent [of None ex_stream None 0]
  have c: "conn ex_stream = Some 0" by (simp add: ex_defs)
  have e: "emit (ConnCloseRead 0) (ex_stream\<lparr>readCloseFlag := Closed\<rparr>)
             = ex_stream\<lparr>readCloseFlag := Closed, trace := [ConnCloseRead 0]\<rparr>"
    "emit (ConnCloseRead 0) (ex_stream\<lparr>readCloseFlag := Closed, trace := [ConnCloseRead 0]\<rparr>)
             = ex_stream\<lparr>readCloseFlag := Closed, trace := [ConnCloseRead 0, ConnCloseRead 0]\<rparr>"
    "emit (ConnCloseWrite 0) (ex_stream\<lparr>writeCloseFlag := Closed\<rparr>)
             = ex_stream\<lparr>writeCloseFlag := Closed, trace := [ConnCloseWrite 0]\<rparr>"
    "emit (ConnCloseWrite 0) (ex_stream\<lparr>writeCloseFlag := Closed, trace := [ConnCloseWrite 0]\<rparr>)
             = ex_stream\<lparr>writeCloseFlag := Closed, trace := [ConnCloseWrite 0, ConnCloseWrite 0]\<rparr>"
    by (simp_all add: emit_def ex_stream_def)
  from t c have 1: "CloseRead None ex_stream = (Returned None, emit (ConnCloseRead 0) (ex_stream\<lparr>readCloseFlag := Closed\<rparr>))"
    by blast
  from t c have 2: "CloseRead None (snd (CloseRead None ex_stream)) =
        (Returned None, emit (ConnCloseRead 0) (snd (CloseRead None ex_stream)))"
    by blast
  from t c have 3: "CloseWrite None ex_stream = (Returned None, emit (ConnCloseWrite 0) (ex_stream\<lparr>writeCloseFlag := Closed\<rparr>))"
    by blast
  from t c have 4: "CloseWrite None (snd (CloseWrite None ex_stream)) =
        (Returned None, emit (ConnCloseWrite 0) (snd (CloseWrite None ex_stream)))"
    by blast
  from t have 5: "readClosed (snd (CloseRead None ex_stream))" "writeClosed (snd (CloseWrite None ex_stream))"
    by blast+
  from t 5 have 6: "readClosed (run [OpWrite ex_write_ok ex_hello, OpRead ex_read_retry, OpCloseRead None]
                (snd (CloseRead None ex_stream)))"
     "writeClosed (run [OpWrite ex_write_ok ex_hello, OpRead ex_read_retry, OpCloseWrite None]
                 (snd (CloseWrite None ex_stream)))"
    by blast+
  show ?thesis
    using c 1 2 3 4 5 6 by (simp add: e)
qed

section \<open>A write that fails before the retry is decided\<close>

text \<open>
  Let the retry be undecided and let the write on the provisional socket report an error
  after \<open>n\<close> bytes. Then \<^verbatim>\<open>Write\<close> is blocked, and the call stays blocked in every state
  in which the retry is undecided. In a state in which the retry is decided and the stream
  has a socket, the call goes on: it writes \<^verbatim>\<open>b[n:]\<close> to that socket and returns \<open>n\<close> plus
  the count of this write, with the error of this write.
\<close>

lemma Write_waits_then_writes_rest:
  assumes "\<not> retryCompleted r" and "conn r = Some c" and "snd (w_provisional e) = Some err"
  shows
    "(let n = fst (conn_Write (w_provisional e) b);
          fr = \<lparr> wf_b = b, wf_conn = Some c, wf_n = n, wf_err = Some err \<rparr>;
          r1 = r\<lparr> hello := hello r @ take n b,
                 trace := trace r @ [ConnWrite c b, ConnSetReadDeadline c (timeout_field r)] \<rparr>
      in Write_provisional e b r = (Returned fr, r1) \<and>
         Write e b r = (Blocked, r1) \<and>
         (\<forall>e2 r2. \<not> retryCompleted r2 \<longrightarrow> Write_resume e2 fr r2 = (Blocked, r2)) \<and>
         (\<forall>e2 r2 c2. retryCompleted r2 \<and> conn r2 = Some c2 \<longrightarrow>
            Write_resume e2 fr r2 =
              (Returned (n + fst (conn_Write (w_remainder e2) (drop n b)),
                         snd (conn_Write (w_remainder e2) (drop n b))),
               r2\<lparr> trace := trace r2 @ [ConnWrite c2 (drop n b)] \<rparr>)))"
proof -
  let ?n = "fst (conn_Write (w_provisional e) b)"
  let ?fr = "\<lparr> wf_b = b, wf_conn = Some c, wf_n = ?n, wf_err = Some err \<rparr>"
  let ?r1 = "r\<lparr> hello := hello r @ take ?n b,
                 trace := trace r @ [ConnWrite c b, ConnSetReadDeadline c (timeout_field r)] \<rparr>"
  have n: "?n \<le> length b" by (simp add: conn_Write_def)
  have p: "Write_provisional e b r = (Returned ?fr, ?r1)"
    using assms by (simp add: Write_provisional_def Let_def conn_Write_def emit_def)
  have o: "\<not> retryCompleted ?r1"
    using assms(1) by (simp add: retryCompleted_def)
  have w: "Write_resume e2 ?fr r2 = (Blocked, r2)" if "\<not> retryCompleted r2" for e2 r2
    using that by (simp add: Write_resume_def Write_remainder_def bind_o_def)
  have b: "Write e b r = (Blocked, ?r1)"
    using p w [OF o] by (simp add: Write_def bind_o_def)
  have c: "Write_resume e2 ?fr r2 =
              (Returned (?n + fst (conn_Write (w_remainder e2) (drop ?n b)),
                         snd (conn_Write (w_remainder e2) (drop ?n b))),
               r2\<lparr> trace := trace r2 @ [ConnWrite c2 (drop ?n b)] \<rparr>)"
    if "retryCompleted r2 \<and> conn r2 = Some c2" for e2 r2 c2
    using that n
    by (simp add: Write_resume_def Write_remainder_def Write_final_def bind_o_def Let_def emit_def)
  show ?thesis
    unfolding Let_def using p b w c by blast
qed

lemma Write_waits_then_writes_rest_example:
  "\<not> retryCompleted ex_stream \<and> conn ex_stream = Some 0 \<and>
   snd (w_provisional ex_write_reset) = Some ECONNRESET \<and>
   Write ex_write_reset ex_hello ex_stream = (Blocked, ex_waiting) \<and>
   \<not> retryCompleted ex_waiting \<and>
   Write_resume ex_write_reset ex_frame ex_waiting = (Blocked, ex_waiting) \<and>
   Read ex_read_retry ex_waiting = (Returned (100, None), ex_replaced) \<and>
   retryCompleted ex_replaced \<and> conn ex_replaced = Some 1 \<and>
   Write_resume ex_write_reset ex_frame ex_replaced =
     (Returned (5, None), ex_replaced\<lparr> trace := trace ex_replaced @ [ConnWrite 1 [1, 0, 5]] \<rparr>)"
proof -
  have a: "\<not> retryCompleted ex_stream" "conn ex_stream = Some 0"
    "snd (w_provisional ex_write_reset) = Some ECONNRESET"
    by (simp_all add: ex_defs retryCompleted_def)
  note t = Write_waits_then_writes_rest [OF a, of ex_hello, unfolded Let_def]
  have n: "fst (conn_Write (w_provisional ex_write_reset) ex_hello) = 2"
    by (simp add: ex_defs conn_Write_def)
  have fr: "\<lparr> wf_b = ex_hello, wf_conn = Some 0, wf_n = 2, wf_err = Some ECONNRESET \<rparr> = ex_frame"
    by (simp add: ex_defs ex_waiting_def ex_frame_def ex_replaced_def)
  have r1: "ex_stream\<lparr> hello := hello ex_stream @ take 2 ex_hello,
       trace := trace ex_stream @ [ConnWrite 0 ex_hello, ConnSetReadDeadline 0 (timeout_field ex_stream)] \<rparr>
       = ex_waiting"
    by (simp add: ex_defs ex_waiting_def ex_frame_def ex_replaced_def)
  note t' = t [unfolded n fr r1]
  have o: "\<not> retryCompleted ex_waiting" "retryCompleted ex_replaced" "conn ex_replaced = Some 1"
    by (simp_all add: ex_waiting_def ex_frame_def ex_replaced_def retryCompleted_def)
  have m: "conn_Write (w_remainder ex_write_reset) (drop 2 ex_hello) = (3, None)"
    "drop 2 ex_hello = [1, 0, 5]"
    "conn_Write (w_remainder ex_write_reset) [1, 0, 5] = (3, None)"
    by (simp_all add: ex_defs conn_Write_def)
  from t' o have "Write_resume ex_write_reset ex_frame ex_replaced =
     (Returned (2 + fst (conn_Write (w_remainder ex_write_reset) (drop 2 ex_hello)),
                snd (conn_Write (w_remainder ex_write_reset) (drop 2 ex_hello))),
      ex_replaced\<lparr> trace := trace ex_replaced @ [ConnWrite 1 (drop 2 ex_hello)] \<rparr>)"
    by blast
  then have x: "Write_resume ex_write_reset ex_frame ex_replaced =
     (Returned (5, None), ex_replaced\<lparr> trace := trace ex_replaced @ [ConnWrite 1 [1, 0, 5]] \<rparr>)"
    by (simp add: m)
  from t' o have y: "Write_resume ex_write_reset ex_frame ex_waiting = (Blocked, ex_waiting)"
    by blast
  from t' have z: "Write ex_write_reset ex_hello ex_stream = (Blocked, ex_waiting)"
    by blast
  have rd: "Read ex_read_retry ex_waiting = (Returned (100, None), ex_replaced)"
    by (simp add: ex_defs ex_waiting_def ex_frame_def ex_replaced_def op_defs)
  show ?thesis using a o x y z rd by simp
qed

text \<open>
  Claim C4. The write on the provisional socket fails after two of the five bytes, so
  \<^verbatim>\<open>Write\<close> is blocked with \<open>n = 2\<close>. The read fails and so does the second dial; the
  retry is decided and \<^verbatim>\<open>r.conn\<close> is nil. The blocked call goes on and calls \<^verbatim>\<open>Write\<close> on
  the nil socket with \<^verbatim>\<open>b[2:]\<close>: it panics, where the claim has it return \<open>2\<close> plus the
  count of that write.
\<close>

theorem failed_redial_Write_remainder:
  "Write_provisional ex_write_reset ex_hello ex_stream = (Returned ex_frame, ex_waiting) \<and>
   wf_n ex_frame = 2 \<and> wf_err ex_frame = Some ECONNRESET \<and>
   Write ex_write_reset ex_hello ex_stream = (Blocked, ex_waiting) \<and>
   snd (Read ex_read_dial_fails ex_waiting) = ex_dead \<and>
   retryCompleted ex_dead \<and>
   Write_resume ex_write_reset ex_frame ex_dead = (Panicked, ex_dead)"
  by (simp add: ex_defs ex_waiting_def ex_frame_def ex_dead_def ex_read_dial_fails_def op_defs)

section \<open>Half-closes and the new socket\<close>

text \<open>
  Claim C6 as it is stated does not hold. The read half is closed first, then the hello is
  written, then the first read fails. The stream dials again and gets the socket 1, but
  the first write of the replay fails: \<^verbatim>\<open>retry\<close> returns this error at once, \<^verbatim>\<open>Read\<close>
  returns it to its caller, and \<^verbatim>\<open>CloseRead\<close> is never called on the socket 1 although the
  read flag is closed.
\<close>

theorem retry_half_close_counterexample:
  "snd (Write ex_write_ok ex_hello (snd (CloseRead None ex_stream))) = ex_read_closed \<and>
   readClosed ex_read_closed \<and>
   dial (on_retry ex_read_replay_fails) = Inr 1 \<and>
   Read ex_read_replay_fails ex_read_closed =
     (Returned (0, Some EPIPE),
      \<lparr> network = ''tcp'', addr = ''192.0.2.1:443'', conn = Some 1,
        timeout_field = 1210000000, hello = [],
        retryCompleteFlag = Closed, readCloseFlag = Closed, writeCloseFlag = Open,
        trace = [ConnCloseRead 0, ConnWrite 0 [22, 3, 1, 0, 5],
                 ConnSetReadDeadline 0 1210000000, ConnRead 0, ConnClose 0,
                 NetDialTCP ''tcp'' ''192.0.2.1:443'' (Some 1), ConnWrite 1 [22, 3]] \<rparr>) \<and>
   ConnCloseRead 1 \<notin> set (trace (snd (Read ex_read_replay_fails ex_read_closed)))"
  by (simp add: ex_defs ex_read_closed_def ex_read_replay_fails_def op_defs)

text \<open>
  Claim C6, amended. When the stream dials again, gets a new socket, and both writes of
  the replay report no error, it calls \<^verbatim>\<open>CloseRead\<close> on the new socket if the read flag is
  closed and \<^verbatim>\<open>CloseWrite\<close> if the write flag is closed, after the replay and before the
  read on the new socket whose result \<^verbatim>\<open>Read\<close> returns.
\<close>

theorem retry_reapplies_half_close:
  assumes "\<not> retryCompleted r" and "conn r = Some old"
    and "snd (read_cur e) = Some err"
    and "dial (on_retry e) = Inr c"
    and "snd (write_first (on_retry e)) = None"
    and "snd (write_second (on_retry e)) = None"
  shows
    "fst (Read e r) = Returned (read_new (on_retry e)) \<and>
     conn (snd (Read e r)) = Some c \<and>
     trace (snd (Read e r)) =
       trace r @
       [ConnRead old, ConnClose old, NetDialTCP (network r) (addr r) (Some c),
        ConnWrite c (fst (splitHello (intn (on_retry e)) (hello r))),
        ConnWrite c (snd (splitHello (intn (on_retry e)) (hello r)))] @
       (if readClosed r then [ConnCloseRead c] else []) @
       (if writeClosed r then [ConnCloseWrite c] else []) @
       [ConnRead c]"
  using assms
  by (simp add: Read_def retry_def bind_o_def Let_def conn_Write_def
      retryCompleted_def closed_iff not_closed_iff)

theorem retry_reapplies_half_close_witness:
  "\<not> retryCompleted ex_read_closed \<and> conn ex_read_closed = Some 0 \<and>
   snd (read_cur ex_read_retry) = Some ECONNRESET \<and>
   dial (on_retry ex_read_retry) = Inr 1 \<and>
   snd (write_first (on_retry ex_read_retry)) = None \<and>
   snd (write_second (on_retry ex_read_retry)) = None \<and>
   snd (Write ex_write_ok ex_hello (snd (CloseRead None ex_stream))) = ex_read_closed \<and>
   fst (Read ex_read_retry ex_read_closed) = Returned (100, None) \<and>
   conn (snd (Read ex_read_retry ex_read_closed)) = Some 1 \<and>
   trace (snd (Read ex_read_retry ex_read_closed)) =
     [ConnCloseRead 0, ConnWrite 0 [22, 3, 1, 0, 5], ConnSetReadDeadline 0 1210000000,
      ConnRead 0, ConnClose 0, NetDialTCP ''tcp'' ''192.0.2.1:443'' (Some 1),
      ConnWrite 1 [22, 3], ConnWrite 1 [1, 0, 5], ConnCloseRead 1, ConnRead 1]"
proof -
  have a: "\<not> retryCompleted ex_read_closed" "conn ex_read_closed = Some 0"
    "snd (read_cur ex_read_retry) = Some ECONNRESET"
    "dial (on_retry ex_read_retry) = Inr 1"
    "snd (write_first (on_retry ex_read_retry)) = None"
    "snd (write_second (on_retry ex_read_retry)) = None"
    by (simp_all add: ex_defs ex_read_closed_def ex_read_replay_fails_def retryCompleted_def)
  note t = retry_reapplies_half_close [OF a]
  have s: "splitHello (intn (on_retry ex_read_retry)) (hello ex_read_closed) = ([22, 3], [1, 0, 5])"
    by (simp add: ex_defs ex_read_closed_def ex_read_replay_fails_def splitHello_def MIN_SPLIT_def Let_def)
  have f: "readClosed ex_read_closed" "\<not> writeClosed ex_read_closed"
    "read_new (on_retry ex_read_retry) = (100, None)"
    "network ex_read_closed = ''tcp''" "addr ex_read_closed = ''192.0.2.1:443''"
    "trace ex_read_closed = [ConnCloseRead 0, ConnWrite 0 [22, 3, 1, 0, 5], ConnSetReadDeadline 0 1210000000]"
    by (simp_all add: ex_defs ex_read_closed_def ex_read_replay_fails_def readClosed_def writeClosed_def)
  have w: "snd (Write ex_write_ok ex_hello (snd (CloseRead None ex_stream))) = ex_read_closed"
    by (simp add: ex_defs ex_read_closed_def ex_read_replay_fails_def op_defs)
  show ?thesis
    using t a w by (simp add: s f)
qed

section \<open>When the second dial fails\<close>

text \<open>
  When the second dial fails, \<^verbatim>\<open>Read\<close> returns the error of the dial, the retry is decided
  and \<^verbatim>\<open>r.conn\<close> is the nil pointer that \<^verbatim>\<open>net.DialTCP\<close> returned.
\<close>

lemma Read_failed_redial:
  assumes "\<not> retryCompleted r" and "conn r = Some old"
    and "snd (read_cur e) = Some err" and "dial (on_retry e) = Inl derr"
  shows "Read e r =
    (Returned (0, Some derr),
     r\<lparr> conn := None, hello := [], retryCompleteFlag := Closed,
        trace := trace r @ [ConnRead old, ConnClose old, NetDialTCP (network r) (addr r) None] \<rparr>)"
  using assms
  by (simp add: Read_def retry_def bind_o_def Let_def emit_def retryCompleted_def
      closed_iff not_closed_iff)

text \<open>Once the retry is decided, no sequence of operations dials again.\<close>

lemma run_completed_retries:
  "retryCompleted r \<Longrightarrow> retryCompleted (run ops r) \<and> retries (run ops r) = retries r"
proof (induction ops arbitrary: r)
  case Nil
  then show ?case by simp
next
  case (Cons p ops)
  obtain out r1 where e: "exec p r = (out, r1)" by (cases "exec p r")
  from exec_frame(1) [OF e Cons.prems]
  have c: "retryCompleted r1" "retries r1 = retries r" by simp_all
  with e Cons.IH [of r1] show ?case by (cases out) simp_all
qed

text \<open>
  Claim C5. The write on the provisional socket fails after two bytes, so \<^verbatim>\<open>Write\<close> is
  blocked. The read fails, the stream dials again and the dial fails: \<^verbatim>\<open>Read\<close> returns
  the error of the dial, the retry is decided, the stream has dialed again once, and
  \<^verbatim>\<open>r.conn\<close> is nil. The blocked \<^verbatim>\<open>Write\<close> goes on and calls \<^verbatim>\<open>Write\<close> on the nil socket:
  it panics, where the claim has it report a failure.
\<close>

theorem failed_redial_blocked_Write:
  "Write ex_write_reset ex_hello ex_stream = (Blocked, ex_waiting) \<and>
   Read ex_read_dial_fails ex_waiting = (Returned (0, Some ECONNREFUSED), ex_dead) \<and>
   retryCompleted ex_dead \<and> conn ex_dead = None \<and> retries ex_dead = 1 \<and>
   fst (Write_resume ex_write_reset ex_frame ex_dead) = Panicked \<and>
   trace (snd (Write_resume ex_write_reset ex_frame ex_dead)) = trace ex_dead"
  by (simp add: ex_defs ex_waiting_def ex_frame_def ex_dead_def ex_read_dial_fails_def op_defs)

text \<open>
  Claim C10. After the failed dial \<^verbatim>\<open>r.conn\<close> is nil. \<^verbatim>\<open>Write\<close>, \<^verbatim>\<open>CloseRead\<close> and
  \<^verbatim>\<open>CloseWrite\<close> then call a method on the nil socket: nothing is sent on a socket, but
  the calls panic, where the claim has them return an error.
\<close>

theorem failed_redial_nil_conn:
  "Read ex_read_dial_fails ex_waiting = (Returned (0, Some ECONNREFUSED), ex_dead) \<and>
   conn ex_dead = None \<and>
   Write ex_write_ok ex_hello ex_dead = (Panicked, ex_dead) \<and>
   CloseRead None ex_dead = (Panicked, ex_dead\<lparr>readCloseFlag := Closed\<rparr>) \<and>
   CloseWrite None ex_dead = (Panicked, ex_dead\<lparr>writeCloseFlag := Closed\<rparr>)"
  by (simp add: ex_defs ex_waiting_def ex_frame_def ex_dead_def ex_read_dial_fails_def op_defs)

text \<open>On any stream without a socket these calls panic and log nothing.\<close>

lemma nil_conn_panics:
  assumes "conn r = None"
  shows "Read e r = (Panicked, r)"
    and "fst (Write w b r) = Panicked" and "trace (snd (Write w b r)) = trace r"
    and "fst (CloseRead x r) = Panicked" and "trace (snd (CloseRead x r)) = trace r"
    and "fst (CloseWrite x r) = Panicked" and "trace (snd (CloseWrite x r)) = trace r"
  using assms
  by (simp_all add: Read_def Write_def Write_provisional_def Write_resume_def Write_remainder_def
      Write_final_def CloseRead_def CloseWrite_def bind_o_def Let_def split: option.splits)

end
